theory Spec2Isabelle
  imports Main
begin

section \<open>The singularity pattern: data model\<close>

text \<open>
  The header \<^verbatim>\<open>singularity.hpp\<close> keeps all of its state in static data members of
  class templates. A static member of a template exists once per instantiation, so
  \<^verbatim>\<open>singularity_state<T>::created\<close> is a table indexed by the managed type \<open>T\<close>,
  \<^verbatim>\<open>singularity_instance<T, M>::instance_ptr\<close> a table indexed by \<open>T\<close> and the threading
  policy \<open>M\<close>, and \<^verbatim>\<open>multi_threaded<T>::lockable\<close> a table indexed by \<open>T\<close>. The embedding
  writes these tables as functions and passes them, together with the free store, from
  call to call. The build with exceptions is the one embedded (\<^verbatim>\<open>BOOST_NO_EXCEPTIONS\<close>
  undefined): every \<^verbatim>\<open>throw\<close> is a failure value.
\<close>

type_synonym addr = nat

definition NULL :: addr where
  "NULL = 0"

text \<open>The two threading policies the header provides as the template argument \<open>M\<close>.\<close>

datatype policy = single_threaded | multi_threaded

text \<open>The three exception types of the header.\<close>

datatype singularity_exception =
    singularity_already_created
  | singularity_already_destroyed
  | singularity_destroy_on_incorrect_threading

text \<open>
  What a call of \<^verbatim>\<open>create\<close> can throw: one of the header's exceptions, or whatever the
  expression \<^verbatim>\<open>new T(...)\<close> throws, which \<^verbatim>\<open>create\<close> does not catch.
\<close>

datatype 'x thrown = singularity singularity_exception | from_new 'x

subsection \<open>The free store\<close>

text \<open>
  The free store holds the live objects, newest first, each with its address.
  \<^verbatim>\<open>operator new\<close> is embedded as an allocator that hands out the address after the
  highest live one: never \<open>NULL\<close>, never the address of a live object, and an address
  that was released may be handed out again. Memory is unbounded, so the allocation
  itself does not fail; a constructor may. \<^verbatim>\<open>delete p\<close> runs the destructor of the managed
  type, which is taken to return normally and to touch nothing but its object, and gives
  the storage back, after which nothing lives at \<open>p\<close>.
\<close>

type_synonym 'o store = "(addr \<times> 'o) list"

definition deref :: "'o store \<Rightarrow> addr \<Rightarrow> 'o option" where
  "deref h p = map_of h p"

definition operator_new :: "'o store \<Rightarrow> addr" where
  "operator_new h = Suc (fold max (map fst h) NULL)"

definition operator_delete :: "addr \<Rightarrow> 'o store \<Rightarrow> 'o store" where
  "operator_delete p h = filter (\<lambda>c. fst c \<noteq> p) h"

text \<open>
  The expression \<^verbatim>\<open>new T(arg0, ..., argn)\<close>: storage is obtained, the constructor runs
  on the arguments, and the address of the constructed object is the value. When the
  constructor throws, the storage is given back and the exception leaves the
  expression. The constructor of the managed type is a parameter \<open>ctor\<close> of the
  embedding, a function from the argument pack to the constructed object or to the
  exception it throws; it does not call back into the singularity.
\<close>

definition new_expr :: "('a \<Rightarrow> 'x + 'o) \<Rightarrow> 'a \<Rightarrow> 'o store \<Rightarrow> 'x + (addr \<times> 'o store)" where
  "new_expr ctor args h =
     (let p = operator_new h in
      case ctor args of
        Inl x \<Rightarrow> Inl x
      | Inr obj \<Rightarrow> Inr (p, (p, obj) # h))"

subsection \<open>Process-wide state\<close>

record ('t, 'o) process =
  created :: "'t \<Rightarrow> bool"
  instance_ptr :: "'t \<Rightarrow> policy \<Rightarrow> addr"
  lockable :: "'t \<Rightarrow> bool"
  heap :: "'o store"

text \<open>
  Static initialisation: \<^verbatim>\<open>created = false\<close>, \<^verbatim>\<open>instance_ptr = NULL\<close>, every mutex
  unlocked, nothing allocated.
\<close>

definition initial :: "('t, 'o) process" where
  "initial = \<lparr> created = (\<lambda>T. False), instance_ptr = (\<lambda>T M. NULL),
               lockable = (\<lambda>T. False), heap = [] \<rparr>"

subsection \<open>Threading policies\<close>

text \<open>
  \<^verbatim>\<open>M<T> guard;\<close> runs the policy's constructor, and leaving the scope, by return or by
  exception, runs its destructor. For \<^verbatim>\<open>single_threaded\<close> both are empty. For
  \<^verbatim>\<open>multi_threaded\<close> the constructor locks \<^verbatim>\<open>multi_threaded<T>::lockable\<close> and the
  destructor unlocks it. \<^verbatim>\<open>boost::mutex\<close> is not recursive: locking a mutex that is
  held never returns in a sequential run, which is the value \<open>None\<close>.
\<close>

fun policy_ctor :: "policy \<Rightarrow> 't \<Rightarrow> ('t, 'o) process \<Rightarrow> ('t, 'o) process option" where
  "policy_ctor single_threaded T s = Some s"
| "policy_ctor multi_threaded T s =
     (if lockable s T then None else Some (s\<lparr>lockable := (lockable s)(T := True)\<rparr>))"

fun policy_dtor :: "policy \<Rightarrow> 't \<Rightarrow> ('t, 'o) process \<Rightarrow> ('t, 'o) process" where
  "policy_dtor single_threaded T s = s"
| "policy_dtor multi_threaded T s = s\<lparr>lockable := (lockable s)(T := False)\<rparr>"

section \<open>The lifecycle operations\<close>

text \<open>
  \<^verbatim>\<open>singularity<T, M, A0, ..., A7>\<close> has the template arguments \<open>T\<close>, \<open>M\<close> and the
  constructor argument types \<open>A0 ... A7\<close>, written \<open>As\<close> here. The argument types fix
  only the parameter types of the \<^verbatim>\<open>create\<close> overloads, which the preprocessor
  generates for zero up to \<^verbatim>\<open>BOOST_SINGULARITY_ARGS_MAX\<close> arguments; no statement of
  \<^verbatim>\<open>create\<close> or \<^verbatim>\<open>destroy\<close> depends on them, and neither do the statics. The argument
  pack \<open>args\<close> is handed to the constructor as it is.
\<close>

definition BOOST_SINGULARITY_ARGS_MAX :: nat where
  "BOOST_SINGULARITY_ARGS_MAX = 8"

definition detect_already_created :: "'t \<Rightarrow> ('t, 'o) process \<Rightarrow> singularity_exception + unit" where
  "detect_already_created T s =
     (if created s T \<noteq> False then Inl singularity_already_created else Inr ())"

definition create ::
  "('t \<Rightarrow> 'a \<Rightarrow> 'x + 'o) \<Rightarrow> 't \<Rightarrow> policy \<Rightarrow> 's \<Rightarrow> 'a \<Rightarrow> ('t, 'o) process
     \<Rightarrow> (('x thrown + addr) \<times> ('t, 'o) process) option" where
  "create ctor T M As args s =
     (case policy_ctor M T s of
        None \<Rightarrow> None
      | Some s0 \<Rightarrow> Some
         (case detect_already_created T s0 of
            Inl e \<Rightarrow> (Inl (singularity e), policy_dtor M T s0)
          | Inr _ \<Rightarrow>
             (case new_expr (ctor T) args (heap s0) of
                Inl x \<Rightarrow> (Inl (from_new x), policy_dtor M T s0)
              | Inr (p, h) \<Rightarrow>
                 (let s1 = s0\<lparr>heap := h,
                              instance_ptr := (instance_ptr s0)(T := (instance_ptr s0 T)(M := p))\<rparr>;
                      s2 = s1\<lparr>created := (created s1)(T := True)\<rparr>
                  in (Inr (instance_ptr s2 T M), policy_dtor M T s2)))))"

definition destroy ::
  "'t \<Rightarrow> policy \<Rightarrow> 's \<Rightarrow> ('t, 'o) process
     \<Rightarrow> ((singularity_exception + unit) \<times> ('t, 'o) process) option" where
  "destroy T M As s =
     (case policy_ctor M T s of
        None \<Rightarrow> None
      | Some s0 \<Rightarrow> Some
         (if created s0 T \<noteq> True then
            (Inl singularity_already_destroyed, policy_dtor M T s0)
          else if instance_ptr s0 T M = NULL then
            (Inl singularity_destroy_on_incorrect_threading, policy_dtor M T s0)
          else
            (let s1 = s0\<lparr>heap := operator_delete (instance_ptr s0 T M) (heap s0)\<rparr>;
                 s2 = s1\<lparr>instance_ptr := (instance_ptr s1)(T := (instance_ptr s1 T)(M := NULL))\<rparr>;
                 s3 = s2\<lparr>created := (created s2)(T := False)\<rparr>
             in (Inr (), policy_dtor M T s3))))"

subsection \<open>Sequences of calls\<close>

text \<open>
  A client program is a sequence of calls of \<^verbatim>\<open>create\<close> and \<^verbatim>\<open>destroy\<close>, each at its
  own instantiation of the template. \<open>call_step\<close> performs one call and reports whether it
  returned normally; a call that throws is caught by the client, as the unit tests do
  with \<^verbatim>\<open>BOOST_CHECK_THROW\<close>, and the sequence goes on.
\<close>

datatype ('t, 's, 'a) call = Create 't policy 's 'a | Destroy 't policy 's

definition succeeded :: "'e + 'r \<Rightarrow> bool" where
  "succeeded r = (case r of Inl _ \<Rightarrow> False | Inr _ \<Rightarrow> True)"

fun call_step ::
  "('t \<Rightarrow> 'a \<Rightarrow> 'x + 'o) \<Rightarrow> ('t, 's, 'a) call \<Rightarrow> ('t, 'o) process
     \<Rightarrow> (bool \<times> ('t, 'o) process) option" where
  "call_step ctor (Create T M As args) s =
     (case create ctor T M As args s of
        None \<Rightarrow> None
      | Some (r, s') \<Rightarrow> Some (succeeded r, s'))"
| "call_step ctor (Destroy T M As) s =
     (case destroy T M As s of
        None \<Rightarrow> None
      | Some (r, s') \<Rightarrow> Some (succeeded r, s'))"

text \<open>
  The history of a run, kept beside the program's state and never read by the program:
  for each managed type, the policy of the \<^verbatim>\<open>create\<close> that returned last, until a
  \<^verbatim>\<open>destroy\<close> returns.
\<close>

type_synonym 't history = "'t \<Rightarrow> policy option"

fun record_call :: "('t, 's, 'a) call \<Rightarrow> bool \<Rightarrow> 't history \<Rightarrow> 't history" where
  "record_call (Create T M As args) ok g = (if ok then g(T := Some M) else g)"
| "record_call (Destroy T M As) ok g = (if ok then g(T := None) else g)"

fun run ::
  "('t \<Rightarrow> 'a \<Rightarrow> 'x + 'o) \<Rightarrow> ('t, 's, 'a) call list \<Rightarrow> ('t, 'o) process \<times> 't history
     \<Rightarrow> (('t, 'o) process \<times> 't history) option" where
  "run ctor [] sg = Some sg"
| "run ctor (c # cs) (s, g) =
     (case call_step ctor c s of
        None \<Rightarrow> None
      | Some (ok, s') \<Rightarrow> run ctor cs (s', record_call c ok g))"

definition start :: "('t, 'o) process \<times> 't history" where
  "start = (initial, (\<lambda>T. None))"

text \<open>
  The holder of the reference that \<^verbatim>\<open>create\<close> returned can assign to the object's
  members. \<open>write_through\<close> is such an assignment, replacing the object at a live address.
\<close>

definition write_through :: "addr \<Rightarrow> 'o \<Rightarrow> ('t, 'o) process \<Rightarrow> ('t, 'o) process" where
  "write_through p v s = s\<lparr>heap := map (\<lambda>c. if fst c = p then (p, v) else c) (heap s)\<rparr>"

section \<open>The managed type of the unit tests\<close>

text \<open>
  \<^verbatim>\<open>Horizon\<close> has five private constructors and four members. \<^verbatim>\<open>mEventPtr\<close> and
  \<^verbatim>\<open>mEventRef\<close> designate either the object's own member \<^verbatim>\<open>mEvent\<close> or the
  \<^verbatim>\<open>Event\<close> the caller passed, which lives at some address outside the object.
  Overload resolution picks the constructor by the shape of the argument pack, so the
  packs that compile are the five below.
\<close>

datatype Event_loc = own_mEvent | external addr

record Horizon =
  mInt :: int
  mEvent :: unit
  mEventPtr :: Event_loc
  mEventRef :: Event_loc

datatype Horizon_args =
    no_args
  | by_value int
  | by_address addr
  | by_reference addr
  | three_args int addr addr

fun Horizon_ctor :: "Horizon_args \<Rightarrow> 'x + Horizon" where
  "Horizon_ctor no_args =
     Inr \<lparr>mInt = 0, mEvent = (), mEventPtr = own_mEvent, mEventRef = own_mEvent\<rparr>"
| "Horizon_ctor (by_value xInt) =
     Inr \<lparr>mInt = xInt, mEvent = (), mEventPtr = own_mEvent, mEventRef = own_mEvent\<rparr>"
| "Horizon_ctor (by_address xEventPtr) =
     Inr \<lparr>mInt = 0, mEvent = (), mEventPtr = external xEventPtr, mEventRef = own_mEvent\<rparr>"
| "Horizon_ctor (by_reference xEventRef) =
     Inr \<lparr>mInt = 0, mEvent = (), mEventPtr = own_mEvent, mEventRef = external xEventRef\<rparr>"
| "Horizon_ctor (three_args xInt xEventPtr xEventRef) =
     Inr \<lparr>mInt = xInt, mEvent = (), mEventPtr = external xEventPtr,
          mEventRef = external xEventRef\<rparr>"

text \<open>
  The template arguments \<open>A0 ... A7\<close> of the tests' instantiations, as the list of those
  that are not the default \<^verbatim>\<open>optional\<close>.
\<close>

datatype arg_type = type_int | type_Event_ptr | type_Event_ref

datatype managed = Horizon_class

definition test_ctor :: "managed \<Rightarrow> Horizon_args \<Rightarrow> unit + Horizon" where
  "test_ctor T = Horizon_ctor"

text \<open>
  The state of a fresh process after \<^verbatim>\<open>singularity<Horizon, M, As>::create(args)\<close>, the first
  statement of most unit tests.
\<close>

definition test_alive ::
  "policy \<Rightarrow> arg_type list \<Rightarrow> Horizon_args \<Rightarrow> (managed, Horizon) process" where
  "test_alive M As args =
     (case create test_ctor Horizon_class M As args initial of
        None \<Rightarrow> initial
      | Some (r, s) \<Rightarrow> s)"

text \<open>
  No constructor of \<^verbatim>\<open>Horizon\<close> throws. To exercise the path on which \<^verbatim>\<open>new T(...)\<close>
  throws, \<open>fragile_ctor\<close> is a managed type built like \<^verbatim>\<open>Horizon\<close> whose default
  constructor throws.
\<close>

definition fragile_ctor :: "managed \<Rightarrow> Horizon_args \<Rightarrow> string + Horizon" where
  "fragile_ctor T args =
     (case args of no_args \<Rightarrow> Inl ''std::runtime_error'' | _ \<Rightarrow> Horizon_ctor args)"

subsection \<open>Consistency of the statics with the history\<close>

text \<open>
  The relation between the statics and the history that every call keeps: the flag of a
  type is set exactly while the history names a policy for it, the slot of that policy
  and no other is not \<open>NULL\<close>, and no mutex is held between calls.
\<close>

definition consistent :: "('t, 'o) process \<times> 't history \<Rightarrow> bool" where
  "consistent sg =
     (case sg of (s, g) \<Rightarrow>
        (\<forall>T. created s T = (g T \<noteq> None))
      \<and> (\<forall>T M. (instance_ptr s T M \<noteq> NULL) = (g T = Some M))
      \<and> (\<forall>T. \<not> lockable s T))"

text \<open>
  What the statics own in the free store: an address is live exactly when it is not
  \<open>NULL\<close> and some slot holds it, and no two slots hold the same live address. Every object
  in the free store of a run is thus the instance of one managed type under one policy.
\<close>

definition owned :: "('t, 'o) process \<Rightarrow> bool" where
  "owned s =
     ((\<forall>p. (deref (heap s) p \<noteq> None) = (p \<noteq> NULL \<and> (\<exists>T M. instance_ptr s T M = p)))
    \<and> (\<forall>T M T' M'. instance_ptr s T M \<noteq> NULL \<and> instance_ptr s T M = instance_ptr s T' M'
           \<longrightarrow> T = T' \<and> M = M'))"

section \<open>Properties of the free store and of the guard\<close>

lemma fold_max_ge_init: "a \<le> fold max xs (a::nat)"
  by (induction xs arbitrary: a) (auto intro: order_trans [OF max.cobounded2])

lemma fold_max_ge_elem: "x \<in> set xs \<Longrightarrow> x \<le> fold max xs (a::nat)"
proof (induction xs arbitrary: a)
  case Nil
  then show ?case by simp
next
  case (Cons y ys)
  show ?case
  proof (cases "x = y")
    case True
    have "y \<le> max y a" by simp
    also have "\<dots> \<le> fold max ys (max y a)" by (rule fold_max_ge_init)
    finally show ?thesis using True by simp
  next
    case False
    with Cons.prems have "x \<in> set ys" by simp
    then show ?thesis using Cons.IH by simp
  qed
qed

lemma operator_new_not_NULL: "operator_new h \<noteq> NULL"
  by (simp add: operator_new_def NULL_def)

lemma operator_new_fresh: "deref h (operator_new h) = None"
proof -
  have "operator_new h \<notin> fst ` set h"
  proof
    assume "operator_new h \<in> fst ` set h"
    then have "operator_new h \<in> set (map fst h)" by simp
    then have "operator_new h \<le> fold max (map fst h) NULL" by (rule fold_max_ge_elem)
    then show False by (simp add: operator_new_def)
  qed
  then show ?thesis by (simp add: deref_def map_of_eq_None_iff)
qed

lemma deref_Cons: "deref ((p, v) # h) q = (if q = p then Some v else deref h q)"
  by (simp add: deref_def)

lemma deref_operator_delete:
  "deref (operator_delete p h) q = (if q = p then None else deref h q)"
  by (induction h) (auto simp: deref_def operator_delete_def)

lemma policy_ctor_unlocked:
  "\<not> lockable s T \<Longrightarrow> \<exists>s0. policy_ctor M T s = Some s0"
  by (cases M) simp_all

lemma guard_round_trip:
  "\<not> lockable s T \<Longrightarrow> policy_ctor M T s = Some s0 \<Longrightarrow> policy_dtor M T s0 = s"
  by (cases M) (auto simp: fun_upd_idem)

section \<open>What each call does, path by path\<close>

text \<open>
  One equation per path through \<^verbatim>\<open>create\<close> and \<^verbatim>\<open>destroy\<close>, for a call made while the
  mutex of the managed type is not held, as it is between any two calls of a sequential
  program. The guard's lock and unlock cancel each other on all of them.
\<close>

lemma create_absent:
  assumes "\<not> created s T" and "\<not> lockable s T" and "ctor T args = Inr obj"
  shows "create ctor T M As args s =
           Some (Inr (operator_new (heap s)),
                 s\<lparr>heap := (operator_new (heap s), obj) # heap s,
                   instance_ptr := (instance_ptr s)(T := (instance_ptr s T)(M := operator_new (heap s))),
                   created := (created s)(T := True)\<rparr>)"
  using assms
  by (cases M)
     (simp_all add: create_def detect_already_created_def new_expr_def Let_def fun_upd_idem)

lemma create_alive:
  assumes "created s T" and "\<not> lockable s T"
  shows "create ctor T M As args s = Some (Inl (singularity singularity_already_created), s)"
  using assms
  by (cases M) (simp_all add: create_def detect_already_created_def fun_upd_idem)

lemma create_ctor_throws:
  assumes "\<not> created s T" and "\<not> lockable s T" and "ctor T args = Inl x"
  shows "create ctor T M As args s = Some (Inl (from_new x), s)"
  using assms
  by (cases M)
     (simp_all add: create_def detect_already_created_def new_expr_def Let_def fun_upd_idem)

lemma destroy_absent:
  assumes "\<not> created s T" and "\<not> lockable s T"
  shows "destroy T M As s = Some (Inl singularity_already_destroyed, s)"
  using assms
  by (cases M) (simp_all add: destroy_def fun_upd_idem)

lemma destroy_other_policy:
  assumes "created s T" and "instance_ptr s T M = NULL" and "\<not> lockable s T"
  shows "destroy T M As s = Some (Inl singularity_destroy_on_incorrect_threading, s)"
  using assms
  by (cases M) (simp_all add: destroy_def fun_upd_idem)

lemma destroy_alive:
  assumes "created s T" and "instance_ptr s T M \<noteq> NULL" and "\<not> lockable s T"
  shows "destroy T M As s =
           Some (Inr (),
                 s\<lparr>heap := operator_delete (instance_ptr s T M) (heap s),
                   instance_ptr := (instance_ptr s)(T := (instance_ptr s T)(M := NULL)),
                   created := (created s)(T := False)\<rparr>)"
  using assms
  by (cases M) (simp_all add: destroy_def Let_def fun_upd_idem)

lemma test_alive_state:
  assumes "test_ctor Horizon_class args = Inr obj"
  shows "test_alive M As args =
     \<lparr>created = (\<lambda>T. True), instance_ptr = (\<lambda>T M'. if M' = M then Suc NULL else NULL),
      lockable = (\<lambda>T. False), heap = [(Suc NULL, obj)]\<rparr>"
proof -
  have a: "\<not> created (initial :: (managed, Horizon) process) Horizon_class"
    and u: "\<not> lockable (initial :: (managed, Horizon) process) Horizon_class"
    by (simp_all add: initial_def)
  note c = assms
  have e: "create test_ctor Horizon_class M As args initial = Some (Inr (operator_new (heap (initial:: (managed, Horizon) process))),
                 initial\<lparr>heap := (operator_new (heap (initial:: (managed, Horizon) process)), obj) # heap (initial:: (managed, Horizon) process),
                   instance_ptr := (instance_ptr (initial:: (managed, Horizon) process))(Horizon_class := (instance_ptr (initial:: (managed, Horizon) process) Horizon_class)(M := operator_new (heap (initial:: (managed, Horizon) process)))),
                   created := (created (initial:: (managed, Horizon) process))(Horizon_class := True)\<rparr>)"
    by (rule create_absent [where ctor = test_ctor, OF a u c])
  show ?thesis
    unfolding test_alive_def e
    by (simp add: initial_def operator_new_def fun_eq_iff) (metis managed.exhaust)
qed

lemma destroy_returned:
  assumes "destroy T M As s = Some (Inr (), s')" and "\<not> lockable s T"
  shows "created s T \<and> instance_ptr s T M \<noteq> NULL"
proof (rule ccontr)
  assume "\<not> (created s T \<and> instance_ptr s T M \<noteq> NULL)"
  then consider "\<not> created s T" | "created s T" "instance_ptr s T M = NULL" by blast
  then show False
  proof cases
    case 1
    from destroy_absent [OF 1 assms(2), of M As] assms(1) show False by simp
  next
    case 2
    from destroy_other_policy [OF 2 assms(2), of As] assms(1) show False by simp
  qed
qed

lemma create_test_alive:
  assumes "test_ctor Horizon_class args = Inr obj"
  shows "create test_ctor Horizon_class M As args initial = Some (Inr (Suc NULL), test_alive M As args)"
proof -
  have a: "\<not> created (initial :: (managed, Horizon) process) Horizon_class"
    and u: "\<not> lockable (initial :: (managed, Horizon) process) Horizon_class"
    by (simp_all add: initial_def)
  show ?thesis
    unfolding test_alive_def create_absent [where ctor = test_ctor, OF a u assms]
    by (simp add: initial_def operator_new_def)
qed

lemma test_state:
  assumes "test_ctor Horizon_class args = Inr obj"
  shows "created (test_alive M As args) T = True"
    and "instance_ptr (test_alive M As args) T M' = (if M' = M then Suc NULL else NULL)"
    and "lockable (test_alive M As args) T = False"
    and "heap (test_alive M As args) = [(Suc NULL, obj)]"
  by (simp_all add: test_alive_state [OF assms])

lemma create_flag:
  assumes "\<not> lockable s T"
  shows "\<exists>r s'. create ctor T M As args s = Some (r, s')
           \<and> (succeeded r \<longrightarrow> \<not> created s T \<and> created s' T)
           \<and> (\<not> succeeded r \<longrightarrow> s' = s)
           \<and> (\<forall>T'. T' \<noteq> T \<longrightarrow> created s' T' = created s T')"
proof (cases "created s T")
  case True
  from create_alive [OF True assms, of ctor M As args] show ?thesis
    by (simp add: succeeded_def)
next
  case False
  show ?thesis
  proof (cases "ctor T args")
    case (Inl x)
    from create_ctor_throws [where ctor = ctor, OF False assms Inl, of M As] show ?thesis
      by (simp add: succeeded_def)
  next
    case (Inr obj)
    from create_absent [where ctor = ctor, OF False assms Inr, of M As] False show ?thesis
      by (simp add: succeeded_def)
  qed
qed

lemma destroy_flag:
  assumes "\<not> lockable s T"
  shows "\<exists>r s'. destroy T M As s = Some (r, s')
           \<and> (succeeded r \<longrightarrow> created s T \<and> \<not> created s' T)
           \<and> (\<not> succeeded r \<longrightarrow> s' = s)
           \<and> (\<forall>T'. T' \<noteq> T \<longrightarrow> created s' T' = created s T')"
proof (cases "created s T")
  case False
  from destroy_absent [OF False assms, of M As] show ?thesis
    by (simp add: succeeded_def)
next
  case True
  show ?thesis
  proof (cases "instance_ptr s T M = NULL")
    case null: True
    from destroy_other_policy [OF True null assms, of As] show ?thesis
      by (simp add: succeeded_def)
  next
    case live: False
    from destroy_alive [OF True live assms, of As] True show ?thesis
      by (simp add: succeeded_def)
  qed
qed

section \<open>Sequences of calls keep the statics consistent\<close>

lemma consistent_start: "consistent start"
  by (simp add: consistent_def start_def initial_def)

lemma call_step_consistent:
  fixes ctor :: "'t \<Rightarrow> 'a \<Rightarrow> 'x + 'o" and c :: "('t, 'r, 'a) call"
  assumes inv: "consistent (s, g)"
  shows "\<exists>ok s'. call_step ctor c s = Some (ok, s') \<and> consistent (s', record_call c ok g)"
proof -
  from inv have flag: "\<And>T. created s T = (g T \<noteq> None)"
    and slot: "\<And>T M. (instance_ptr s T M \<noteq> NULL) = (g T = Some M)"
    and free: "\<And>T. \<not> lockable s T"
    by (simp_all add: consistent_def)
  show ?thesis
  proof (cases c)
    case (Create T M As args)
    show ?thesis
    proof (cases "created s T")
      case True
      from create_alive [OF True free, of ctor M As args] inv show ?thesis
        by (auto simp: Create succeeded_def)
    next
      case False
      show ?thesis
      proof (cases "ctor T args")
        case (Inl x)
        from create_ctor_throws [where ctor = ctor, OF False free Inl, of M As] inv show ?thesis
          by (auto simp: Create succeeded_def)
      next
        case (Inr obj)
        let ?p = "operator_new (heap s)"
        define s' where "s' = s\<lparr>heap := (?p, obj) # heap s,
            instance_ptr := (instance_ptr s)(T := (instance_ptr s T)(M := ?p)),
            created := (created s)(T := True)\<rparr>"
        have "create ctor T M As args s = Some (Inr ?p, s')"
          unfolding s'_def by (rule create_absent [where ctor = ctor, OF False free Inr])
        then have step: "call_step ctor c s = Some (True, s')"
          by (simp add: Create succeeded_def)
        from False flag have none: "g T = None" by simp
        have empty: "instance_ptr s T M' = NULL" for M'
          using slot [of T M'] none by simp
        have fresh: "?p \<noteq> NULL" by (rule operator_new_not_NULL)
        have c1: "\<forall>T'. created s' T' = ((g(T := Some M)) T' \<noteq> None)"
          by (simp add: s'_def flag)
        have c2: "\<forall>T' M'. (instance_ptr s' T' M' \<noteq> NULL) = ((g(T := Some M)) T' = Some M')"
          using fresh empty by (auto simp: s'_def slot)
        have c3: "\<forall>T'. \<not> lockable s' T'"
          by (simp add: s'_def free)
        from c1 c2 c3 have "consistent (s', record_call c True g)"
          by (simp add: consistent_def Create)
        with step show ?thesis by blast
      qed
    qed
  next
    case (Destroy T M As)
    show ?thesis
    proof (cases "created s T")
      case False
      from destroy_absent [OF False free, of M As] inv show ?thesis
        by (auto simp: Destroy succeeded_def)
    next
      case True
      show ?thesis
      proof (cases "instance_ptr s T M = NULL")
        case null: True
        from destroy_other_policy [OF True null free, of As] inv show ?thesis
          by (auto simp: Destroy succeeded_def)
      next
        case live: False
        define s' where "s' = s\<lparr>heap := operator_delete (instance_ptr s T M) (heap s),
            instance_ptr := (instance_ptr s)(T := (instance_ptr s T)(M := NULL)),
            created := (created s)(T := False)\<rparr>"
        have "destroy T M As s = Some (Inr (), s')"
          unfolding s'_def by (rule destroy_alive [OF True live free])
        then have step: "call_step ctor c s = Some (True, s')"
          by (simp add: Destroy succeeded_def)
        from live slot have owner: "g T = Some M" by simp
        have others: "instance_ptr s T M' = NULL" if "M' \<noteq> M" for M'
          using slot [of T M'] owner that by simp
        have c1: "\<forall>T'. created s' T' = ((g(T := None)) T' \<noteq> None)"
          by (simp add: s'_def flag)
        have c2: "\<forall>T' M'. (instance_ptr s' T' M' \<noteq> NULL) = ((g(T := None)) T' = Some M')"
          using others by (auto simp: s'_def slot)
        have c3: "\<forall>T'. \<not> lockable s' T'"
          by (simp add: s'_def free)
        from c1 c2 c3 have "consistent (s', record_call c True g)"
          by (simp add: consistent_def Destroy)
        with step show ?thesis by blast
      qed
    qed
  qed
qed

lemma run_consistent:
  fixes ctor :: "'t \<Rightarrow> 'a \<Rightarrow> 'x + 'o" and cs :: "('t, 'r, 'a) call list"
  shows "consistent sg \<Longrightarrow> \<exists>sg'. run ctor cs sg = Some sg' \<and> consistent sg'"
proof (induction cs arbitrary: sg)
  case Nil
  then show ?case by simp
next
  case (Cons c cs)
  obtain s g where sg: "sg = (s, g)" by (cases sg)
  with Cons.prems have "consistent (s, g)" by simp
  from call_step_consistent [OF this, of ctor c]
  obtain ok s' where step: "call_step ctor c s = Some (ok, s')"
    and inv': "consistent (s', record_call c ok g)" by blast
  from Cons.IH [OF inv'] show ?case by (simp add: sg step)
qed

lemma reachable_consistent:
  assumes "run ctor cs start = Some (s, g)"
  shows "consistent (s, g)"
  using run_consistent [OF consistent_start, of ctor cs] assms by auto

section \<open>Sequences of calls keep the free store owned by the slots\<close>

lemma owned_initial: "owned initial"
  by (auto simp: owned_def initial_def deref_def)

lemma create_keeps_owned:
  assumes own: "owned s" and empty: "\<And>M'. instance_ptr s T M' = NULL"
  defines "p \<equiv> operator_new (heap s)"
  shows "owned (s\<lparr>heap := (p, obj) # heap s,
                  instance_ptr := (instance_ptr s)(T := (instance_ptr s T)(M := p)),
                  created := (created s)(T := True)\<rparr>)"
proof -
  let ?s' = "s\<lparr>heap := (p, obj) # heap s,
                instance_ptr := (instance_ptr s)(T := (instance_ptr s T)(M := p)),
                created := (created s)(T := True)\<rparr>"
  from own have live: "\<And>q. (deref (heap s) q \<noteq> None) = (q \<noteq> NULL \<and> (\<exists>T M. instance_ptr s T M = q))"
    and inj: "\<And>T M T' M'. instance_ptr s T M \<noteq> NULL \<Longrightarrow> instance_ptr s T M = instance_ptr s T' M'
                \<Longrightarrow> T = T' \<and> M = M'"
    unfolding owned_def by blast+
  have nonnull: "p \<noteq> NULL" unfolding p_def by (rule operator_new_not_NULL)
  have fresh: "deref (heap s) p = None" unfolding p_def by (rule operator_new_fresh)
  have slot': "instance_ptr ?s' T' M' = (if T' = T \<and> M' = M then p else instance_ptr s T' M')"
    for T' M'
    by simp
  have unused: "instance_ptr s T' M' \<noteq> p" for T' M'
    using live [of p] fresh nonnull by auto
  have heap': "deref (heap ?s') q = (if q = p then Some obj else deref (heap s) q)" for q
    by (simp add: deref_Cons)
  have a: "(deref (heap ?s') q \<noteq> None) = (q \<noteq> NULL \<and> (\<exists>T' M'. instance_ptr ?s' T' M' = q))"
    for q
  proof (cases "q = p")
    case True
    have "instance_ptr ?s' T M = p" by simp
    then have "\<exists>T' M'. instance_ptr ?s' T' M' = p" by blast
    with True nonnull show ?thesis by (simp only: heap') simp
  next
    case False
    have "(\<exists>T' M'. instance_ptr ?s' T' M' = q) = (\<exists>T' M'. instance_ptr s T' M' = q)"
      if "q \<noteq> NULL"
    proof
      assume "\<exists>T' M'. instance_ptr ?s' T' M' = q"
      then obtain T' M' where e: "instance_ptr ?s' T' M' = q" by blast
      with False have "\<not> (T' = T \<and> M' = M)" by (auto split: if_splits)
      with e have "instance_ptr s T' M' = q" by (auto split: if_splits)
      then show "\<exists>T' M'. instance_ptr s T' M' = q" by blast
    next
      assume "\<exists>T' M'. instance_ptr s T' M' = q"
      then obtain T' M' where e: "instance_ptr s T' M' = q" by blast
      with that empty have "T' \<noteq> T" by auto
      with e have "instance_ptr ?s' T' M' = q" by simp
      then show "\<exists>T' M'. instance_ptr ?s' T' M' = q" by blast
    qed
    with False live [of q] show ?thesis by (simp only: heap' if_False) blast
  qed
  have b: "T1 = T2 \<and> M1 = M2"
    if "instance_ptr ?s' T1 M1 \<noteq> NULL" and "instance_ptr ?s' T1 M1 = instance_ptr ?s' T2 M2"
    for T1 M1 T2 M2
  proof (cases "T1 = T \<and> M1 = M")
    case True
    show ?thesis
    proof (cases "T2 = T \<and> M2 = M")
      case True
      with \<open>T1 = T \<and> M1 = M\<close> show ?thesis by simp
    next
      case False
      with True that(2) have "instance_ptr s T2 M2 = p" by (auto split: if_splits)
      with unused show ?thesis by simp
    qed
  next
    case False
    show ?thesis
    proof (cases "T2 = T \<and> M2 = M")
      case True
      with False that(2) have "instance_ptr s T1 M1 = p" by (auto split: if_splits)
      with unused show ?thesis by simp
    next
      case F2: False
      from False F2 that have "instance_ptr s T1 M1 \<noteq> NULL"
        and "instance_ptr s T1 M1 = instance_ptr s T2 M2"
        by (auto split: if_splits)
      then show ?thesis by (rule inj)
    qed
  qed
  from a b show ?thesis unfolding owned_def by blast
qed

lemma destroy_keeps_owned:
  assumes own: "owned s" and live: "instance_ptr s T M \<noteq> NULL"
  shows "owned (s\<lparr>heap := operator_delete (instance_ptr s T M) (heap s),
                  instance_ptr := (instance_ptr s)(T := (instance_ptr s T)(M := NULL)),
                  created := (created s)(T := False)\<rparr>)"
proof -
  let ?p = "instance_ptr s T M"
  let ?s' = "s\<lparr>heap := operator_delete ?p (heap s),
                instance_ptr := (instance_ptr s)(T := (instance_ptr s T)(M := NULL)),
                created := (created s)(T := False)\<rparr>"
  from own have alive: "\<And>q. (deref (heap s) q \<noteq> None) = (q \<noteq> NULL \<and> (\<exists>T M. instance_ptr s T M = q))"
    and inj: "\<And>T M T' M'. instance_ptr s T M \<noteq> NULL \<Longrightarrow> instance_ptr s T M = instance_ptr s T' M'
                \<Longrightarrow> T = T' \<and> M = M'"
    unfolding owned_def by blast+
  have slot': "instance_ptr ?s' T' M' = (if T' = T \<and> M' = M then NULL else instance_ptr s T' M')"
    for T' M'
    by simp
  have heap': "deref (heap ?s') q = (if q = ?p then None else deref (heap s) q)" for q
    by (simp add: deref_operator_delete)
  have others: "instance_ptr s T' M' \<noteq> ?p" if "\<not> (T' = T \<and> M' = M)" for T' M'
  proof
    assume "instance_ptr s T' M' = ?p"
    then have "?p = instance_ptr s T' M'" by simp
    from inj [OF live this] that show False by simp
  qed
  have a: "(deref (heap ?s') q \<noteq> None) = (q \<noteq> NULL \<and> (\<exists>T' M'. instance_ptr ?s' T' M' = q))"
    for q
  proof (cases "q = NULL")
    case True
    with alive [of q] have "deref (heap s) q = None" by simp
    with True show ?thesis by (simp only: heap') simp
  next
    case nn: False
    have "(\<exists>T' M'. instance_ptr ?s' T' M' = q) = (q \<noteq> ?p \<and> (\<exists>T' M'. instance_ptr s T' M' = q))"
    proof
      assume "\<exists>T' M'. instance_ptr ?s' T' M' = q"
      then obtain T' M' where e: "instance_ptr ?s' T' M' = q" by blast
      with nn have d: "\<not> (T' = T \<and> M' = M)" by (auto split: if_splits)
      with e have e': "instance_ptr s T' M' = q" by (auto split: if_splits)
      with others [OF d] show "q \<noteq> ?p \<and> (\<exists>T' M'. instance_ptr s T' M' = q)" by blast
    next
      assume "q \<noteq> ?p \<and> (\<exists>T' M'. instance_ptr s T' M' = q)"
      then obtain T' M' where ne: "q \<noteq> ?p" and e: "instance_ptr s T' M' = q" by blast
      then have "\<not> (T' = T \<and> M' = M)" by auto
      with e have "instance_ptr ?s' T' M' = q" by (auto split: if_splits)
      then show "\<exists>T' M'. instance_ptr ?s' T' M' = q" by blast
    qed
    with nn alive [of q] show ?thesis by (simp only: heap') auto
  qed
  have b: "T1 = T2 \<and> M1 = M2"
    if "instance_ptr ?s' T1 M1 \<noteq> NULL" and "instance_ptr ?s' T1 M1 = instance_ptr ?s' T2 M2"
    for T1 M1 T2 M2
  proof -
    from that(1) have d1: "\<not> (T1 = T \<and> M1 = M)" by (auto split: if_splits)
    from that have "instance_ptr ?s' T2 M2 \<noteq> NULL" by simp
    then have d2: "\<not> (T2 = T \<and> M2 = M)" by (auto split: if_splits)
    from d1 d2 that have "instance_ptr s T1 M1 \<noteq> NULL"
      and "instance_ptr s T1 M1 = instance_ptr s T2 M2"
      by (auto split: if_splits)
    then show ?thesis by (rule inj)
  qed
  from a b show ?thesis unfolding owned_def by blast
qed


lemma owned_live:
  assumes "owned s" and "deref (heap s) q \<noteq> None"
  shows "q \<noteq> NULL \<and> (\<exists>T M. instance_ptr s T M = q)"
proof -
  from assms(1)
  have "\<forall>p. (deref (heap s) p \<noteq> None) = (p \<noteq> NULL \<and> (\<exists>T M. instance_ptr s T M = p))"
    unfolding owned_def by (rule conjunct1)
  then have "(deref (heap s) q \<noteq> None) = (q \<noteq> NULL \<and> (\<exists>T M. instance_ptr s T M = q))"
    by (rule spec)
  with assms(2) show ?thesis by (rule iffD1 [rotated])
qed

lemma call_step_owned:
  fixes ctor :: "'t \<Rightarrow> 'a \<Rightarrow> 'x + 'o" and c :: "('t, 'r, 'a) call"
  assumes inv: "consistent (s, g)" and own: "owned s"
    and step: "call_step ctor c s = Some (ok, s')"
  shows "owned s'"
proof -
  from inv have flag: "\<And>T. created s T = (g T \<noteq> None)"
    and slot: "\<And>T M. (instance_ptr s T M \<noteq> NULL) = (g T = Some M)"
    and free: "\<And>T. \<not> lockable s T"
    by (simp_all add: consistent_def)
  show ?thesis
  proof (cases c)
    case (Create T M As args)
    show ?thesis
    proof (cases "created s T")
      case True
      from create_alive [OF True free, of ctor M As args] step own show ?thesis
        by (simp add: Create)
    next
      case False
      show ?thesis
      proof (cases "ctor T args")
        case (Inl x)
        from create_ctor_throws [where ctor = ctor, OF False free Inl, of M As] step own
        show ?thesis by (simp add: Create)
      next
        case (Inr obj)
        from False flag have none: "g T = None" by simp
        have empty: "instance_ptr s T M' = NULL" for M'
          using slot [of T M'] none by simp
        from create_absent [where ctor = ctor, OF False free Inr, of M As] step
        have "s' = s\<lparr>heap := (operator_new (heap s), obj) # heap s,
            instance_ptr := (instance_ptr s)(T := (instance_ptr s T)(M := operator_new (heap s))),
            created := (created s)(T := True)\<rparr>"
          by (simp add: Create)
        then show ?thesis using create_keeps_owned [OF own empty] by simp
      qed
    qed
  next
    case (Destroy T M As)
    show ?thesis
    proof (cases "created s T")
      case False
      from destroy_absent [OF False free, of M As] step own show ?thesis
        by (simp add: Destroy)
    next
      case True
      show ?thesis
      proof (cases "instance_ptr s T M = NULL")
        case null: True
        from destroy_other_policy [OF True null free, of As] step own show ?thesis
          by (simp add: Destroy)
      next
        case live: False
        from destroy_alive [OF True live free, of As] step
        have "s' = s\<lparr>heap := operator_delete (instance_ptr s T M) (heap s),
            instance_ptr := (instance_ptr s)(T := (instance_ptr s T)(M := NULL)),
            created := (created s)(T := False)\<rparr>"
          by (simp add: Destroy)
        then show ?thesis using destroy_keeps_owned [OF own live] by simp
      qed
    qed
  qed
qed

lemma run_owned:
  fixes ctor :: "'t \<Rightarrow> 'a \<Rightarrow> 'x + 'o" and cs :: "('t, 'r, 'a) call list"
  shows "consistent (s, g) \<Longrightarrow> owned s \<Longrightarrow> run ctor cs (s, g) = Some (s', g') \<Longrightarrow> owned s'"
proof (induction cs arbitrary: s g)
  case Nil
  then show ?case by simp
next
  case (Cons c cs)
  from call_step_consistent [OF Cons.prems(1), of ctor c]
  obtain ok s1 where step: "call_step ctor c s = Some (ok, s1)"
    and inv1: "consistent (s1, record_call c ok g)" by blast
  from call_step_owned [OF Cons.prems(1) Cons.prems(2) step] have own1: "owned s1" .
  from Cons.prems(3) step have "run ctor cs (s1, record_call c ok g) = Some (s', g')" by simp
  from Cons.IH [OF inv1 own1 this] show ?case .
qed

lemma reachable_owned:
  assumes "run ctor cs start = Some (s, g)"
  shows "owned s"
proof -
  have "consistent (initial, (\<lambda>T. None))" using consistent_start by (simp add: start_def)
  moreover have "owned initial" by (rule owned_initial)
  moreover from assms have "run ctor cs (initial, (\<lambda>T. None)) = Some (s, g)"
    by (simp add: start_def)
  ultimately show ?thesis by (rule run_owned)
qed

section \<open>The claims\<close>

text \<open>
  The statements about a single call are made for a state in which the mutex of the
  managed type is not held. Every state between two calls of a sequential program is
  such a state (\<open>run_consistent\<close>); a call made while the mutex is held would block in the
  constructor of the \<^verbatim>\<open>multi_threaded\<close> guard.
\<close>

text \<open>
  C1. For every managed type \<open>T\<close>, policy \<open>M\<close>, template arguments \<open>As\<close> and argument pack
  \<open>args\<close>: when \<^verbatim>\<open>created\<close> is false for \<open>T\<close> and the constructor of \<open>T\<close>, given exactly
  \<open>args\<close>, completes with the object \<open>obj\<close>, then \<^verbatim>\<open>create(args)\<close> returns normally with a
  reference \<open>p\<close> such that: \<open>p\<close> is not \<open>NULL\<close> and was not live before (a new allocation); the
  free store now holds \<open>obj\<close> at \<open>p\<close>; \<^verbatim>\<open>instance_ptr\<close> for \<open>(T, M)\<close> is \<open>p\<close>; \<^verbatim>\<open>created\<close>
  for \<open>T\<close> is true. Nothing else changes: every other object, every other slot, every
  other type's flag and every mutex is as before. The witness runs the four overloads of
  the unit tests: \<^verbatim>\<open>create(3)\<close>, \<^verbatim>\<open>create(&e)\<close>, \<^verbatim>\<open>create(e)\<close> and \<^verbatim>\<open>create(3, &e, e)\<close>
  with \<^verbatim>\<open>e\<close> at address 7, and reads the members of the instance created.
\<close>

theorem create_constructs_and_publishes:
  assumes "created s T = False" and "\<not> lockable s T" and "ctor T args = Inr obj"
  shows "\<exists>p s'. create ctor T M As args s = Some (Inr p, s')
           \<and> p \<noteq> NULL \<and> deref (heap s) p = None
           \<and> deref (heap s') p = Some obj
           \<and> instance_ptr s' T M = p
           \<and> created s' T = True
           \<and> (\<forall>q. q \<noteq> p \<longrightarrow> deref (heap s') q = deref (heap s) q)
           \<and> (\<forall>T' M'. (T', M') \<noteq> (T, M) \<longrightarrow> instance_ptr s' T' M' = instance_ptr s T' M')
           \<and> (\<forall>T'. T' \<noteq> T \<longrightarrow> created s' T' = created s T')
           \<and> lockable s' = lockable s"
proof -
  let ?p = "operator_new (heap s)"
  from assms have "\<not> created s T" by simp
  note absent = this
  define s' where "s' = s\<lparr>heap := (?p, obj) # heap s,
      instance_ptr := (instance_ptr s)(T := (instance_ptr s T)(M := ?p)),
      created := (created s)(T := True)\<rparr>"
  have run: "create ctor T M As args s = Some (Inr ?p, s')"
    unfolding s'_def
    by (rule create_absent [where ctor = ctor, OF absent assms(2) assms(3)])
  have h: "heap s' = (?p, obj) # heap s"
    and i: "instance_ptr s' = (instance_ptr s)(T := (instance_ptr s T)(M := ?p))"
    and c: "created s' = (created s)(T := True)"
    and l: "lockable s' = lockable s"
    by (simp_all add: s'_def)
  have "?p \<noteq> NULL" by (rule operator_new_not_NULL)
  moreover have "deref (heap s) ?p = None" by (rule operator_new_fresh)
  moreover have "deref (heap s') ?p = Some obj" by (simp add: h deref_Cons)
  moreover have "instance_ptr s' T M = ?p" by (simp add: i)
  moreover have "created s' T = True" by (simp add: c)
  moreover have "\<forall>q. q \<noteq> ?p \<longrightarrow> deref (heap s') q = deref (heap s) q"
    by (simp add: h deref_Cons)
  moreover have "\<forall>T' M'. (T', M') \<noteq> (T, M) \<longrightarrow> instance_ptr s' T' M' = instance_ptr s T' M'"
    by (auto simp: i)
  moreover have "\<forall>T'. T' \<noteq> T \<longrightarrow> created s' T' = created s T'"
    by (simp add: c)
  ultimately show ?thesis using run l by blast
qed

theorem create_constructs_and_publishes_witness:
  "created (initial :: (managed, Horizon) process) Horizon_class = False
   \<and> \<not> lockable (initial :: (managed, Horizon) process) Horizon_class
   \<and> test_ctor Horizon_class (by_value 3)
       = Inr \<lparr>mInt = 3, mEvent = (), mEventPtr = own_mEvent, mEventRef = own_mEvent\<rparr>
   \<and> (\<exists>p s'. create test_ctor Horizon_class single_threaded [type_int] (by_value 3) initial
                = Some (Inr p, s')
          \<and> p \<noteq> NULL \<and> instance_ptr s' Horizon_class single_threaded = p
          \<and> created s' Horizon_class = True
          \<and> deref (heap s') p
              = Some \<lparr>mInt = 3, mEvent = (), mEventPtr = own_mEvent, mEventRef = own_mEvent\<rparr>)
   \<and> (\<exists>p s'. create test_ctor Horizon_class single_threaded [type_Event_ptr] (by_address 7)
                 initial = Some (Inr p, s')
          \<and> p \<noteq> NULL \<and> instance_ptr s' Horizon_class single_threaded = p
          \<and> created s' Horizon_class = True
          \<and> deref (heap s') p
              = Some \<lparr>mInt = 0, mEvent = (), mEventPtr = external 7, mEventRef = own_mEvent\<rparr>)
   \<and> (\<exists>p s'. create test_ctor Horizon_class single_threaded [type_Event_ref] (by_reference 7)
                 initial = Some (Inr p, s')
          \<and> p \<noteq> NULL \<and> instance_ptr s' Horizon_class single_threaded = p
          \<and> created s' Horizon_class = True
          \<and> deref (heap s') p
              = Some \<lparr>mInt = 0, mEvent = (), mEventPtr = own_mEvent, mEventRef = external 7\<rparr>)
   \<and> (\<exists>p s'. create test_ctor Horizon_class single_threaded
                 [type_int, type_Event_ptr, type_Event_ref] (three_args 3 7 7) initial
                = Some (Inr p, s')
          \<and> p \<noteq> NULL \<and> instance_ptr s' Horizon_class single_threaded = p
          \<and> created s' Horizon_class = True
          \<and> deref (heap s') p
              = Some \<lparr>mInt = 3, mEvent = (), mEventPtr = external 7, mEventRef = external 7\<rparr>)"
proof -
  have h1: "created (initial :: (managed, Horizon) process) Horizon_class = False"
    by (simp add: initial_def)
  have h2: "\<not> lockable (initial :: (managed, Horizon) process) Horizon_class"
    by (simp add: initial_def)
  have made: "\<exists>p s'. create test_ctor Horizon_class single_threaded As args initial
                = Some (Inr p, s')
          \<and> p \<noteq> NULL \<and> instance_ptr s' Horizon_class single_threaded = p
          \<and> created s' Horizon_class = True
          \<and> deref (heap s') p = Some obj"
    if "test_ctor Horizon_class args = Inr obj" for As :: "arg_type list" and args obj
    using create_constructs_and_publishes [where ctor = test_ctor and M = single_threaded
        and As = As, OF h1 h2 that]
    by blast
  have h3: "test_ctor Horizon_class (by_value 3)
       = Inr \<lparr>mInt = 3, mEvent = (), mEventPtr = own_mEvent, mEventRef = own_mEvent\<rparr>"
    by (simp add: test_ctor_def)
  have h4: "test_ctor Horizon_class (by_address 7)
       = Inr \<lparr>mInt = 0, mEvent = (), mEventPtr = external 7, mEventRef = own_mEvent\<rparr>"
    by (simp add: test_ctor_def)
  have h5: "test_ctor Horizon_class (by_reference 7)
       = Inr \<lparr>mInt = 0, mEvent = (), mEventPtr = own_mEvent, mEventRef = external 7\<rparr>"
    by (simp add: test_ctor_def)
  have h6: "test_ctor Horizon_class (three_args 3 7 7)
       = Inr \<lparr>mInt = 3, mEvent = (), mEventPtr = external 7, mEventRef = external 7\<rparr>"
    by (simp add: test_ctor_def)
  from h1 h2 h3 made [OF h3] made [OF h4] made [OF h5] made [OF h6]
  show ?thesis by (intro conjI)
qed

text \<open>
  C2. For every managed type \<open>T\<close> and policy \<open>M\<close>, in any state a sequence of calls leads
  to in which \<^verbatim>\<open>created\<close> is true for \<open>T\<close> and \<^verbatim>\<open>instance_ptr\<close> for \<open>(T, M)\<close> is not \<open>NULL\<close>:
  \<^verbatim>\<open>destroy()\<close> returns normally; the object the slot addressed is no longer in the free
  store, the slot is \<open>NULL\<close> and the flag is false. No instance of \<open>T\<close> created through the
  mechanism remains alive: every slot of \<open>T\<close> is \<open>NULL\<close>, and every object still in the free
  store is held by a slot of another managed type whose flag is set. Every other object,
  slot, flag and mutex is as before; and a following \<^verbatim>\<open>create\<close> for \<open>T\<close>, under any policy
  and with any arguments its constructor completes on, returns normally with a live
  instance.
\<close>

theorem destroy_deallocates_and_resets:
  fixes ctor :: "'t \<Rightarrow> 'a \<Rightarrow> 'x + 'o" and cs :: "('t, 'r, 'a) call list"
  assumes "run ctor cs start = Some (s, g)"
    and "created s T = True" and "instance_ptr s T M \<noteq> NULL"
  shows "\<exists>s'. destroy T M As s = Some (Inr (), s')
           \<and> deref (heap s') (instance_ptr s T M) = None
           \<and> instance_ptr s' T M = NULL
           \<and> created s' T = False
           \<and> (\<forall>M'. instance_ptr s' T M' = NULL)
           \<and> (\<forall>q. deref (heap s') q \<noteq> None \<longrightarrow>
                (\<exists>T' M'. T' \<noteq> T \<and> created s' T' \<and> instance_ptr s' T' M' = q))
           \<and> (\<forall>q. q \<noteq> instance_ptr s T M \<longrightarrow> deref (heap s') q = deref (heap s) q)
           \<and> (\<forall>T' M'. (T', M') \<noteq> (T, M) \<longrightarrow> instance_ptr s' T' M' = instance_ptr s T' M')
           \<and> (\<forall>T'. T' \<noteq> T \<longrightarrow> created s' T' = created s T')
           \<and> lockable s' = lockable s
           \<and> (\<forall>(ctor' :: 't \<Rightarrow> 'b \<Rightarrow> 'y + 'o) M' (As' :: 'q) args obj.
                ctor' T args = Inr obj \<longrightarrow>
                (\<exists>p s''. create ctor' T M' As' args s' = Some (Inr p, s'')
                   \<and> created s'' T \<and> instance_ptr s'' T M' = p \<and> deref (heap s'') p = Some obj))"
proof -
  let ?p = "instance_ptr s T M"
  from reachable_consistent [OF assms(1)]
  have flag: "\<And>T. created s T = (g T \<noteq> None)"
    and slot: "\<And>T M. (instance_ptr s T M \<noteq> NULL) = (g T = Some M)"
    and free: "\<And>T. \<not> lockable s T"
    by (simp_all add: consistent_def)
  from assms(2) have alive: "created s T" by simp
  define s' where "s' = s\<lparr>heap := operator_delete ?p (heap s),
      instance_ptr := (instance_ptr s)(T := (instance_ptr s T)(M := NULL)),
      created := (created s)(T := False)\<rparr>"
  have run: "destroy T M As s = Some (Inr (), s')"
    unfolding s'_def by (rule destroy_alive [OF alive assms(3) free])
  have h: "heap s' = operator_delete ?p (heap s)"
    and i: "instance_ptr s' = (instance_ptr s)(T := (instance_ptr s T)(M := NULL))"
    and c: "created s' = (created s)(T := False)"
    and l: "lockable s' = lockable s"
    by (simp_all add: s'_def)
  have own': "owned s'"
    unfolding s'_def by (rule destroy_keeps_owned [OF reachable_owned [OF assms(1)] assms(3)])
  from assms(3) slot [of T M] have owner: "g T = Some M" by simp
  have gone: "deref (heap s') ?p = None" by (simp add: h deref_operator_delete)
  have null: "instance_ptr s' T M = NULL" by (simp add: i)
  have absent: "created s' T = False" by (simp add: c)
  have empty: "\<forall>M'. instance_ptr s' T M' = NULL"
  proof
    fix M'
    show "instance_ptr s' T M' = NULL"
    proof (cases "M' = M")
      case True
      with null show ?thesis by simp
    next
      case False
      with slot [of T M'] owner have "instance_ptr s T M' = NULL" by simp
      with False show ?thesis by (simp add: i)
    qed
  qed
  have rest: "\<forall>q. deref (heap s') q \<noteq> None \<longrightarrow>
       (\<exists>T' M'. T' \<noteq> T \<and> created s' T' \<and> instance_ptr s' T' M' = q)"
  proof (intro allI impI)
    fix q assume "deref (heap s') q \<noteq> None"
    from owned_live [OF own' this]
    obtain T' M' where nn: "q \<noteq> NULL" and at: "instance_ptr s' T' M' = q"
      by (elim exE conjE) (rule that, assumption+)
    from empty nn at have other: "T' \<noteq> T" by auto
    with at have "instance_ptr s T' M' = q" by (simp add: i)
    with nn slot [of T' M'] have "g T' = Some M'" by simp
    with flag [of T'] other have "created s' T'" by (simp add: c)
    with other at show "\<exists>T' M'. T' \<noteq> T \<and> created s' T' \<and> instance_ptr s' T' M' = q"
      by blast
  qed
  have f1: "\<forall>q. q \<noteq> ?p \<longrightarrow> deref (heap s') q = deref (heap s) q"
    by (simp add: h deref_operator_delete)
  have f2: "\<forall>T' M'. (T', M') \<noteq> (T, M) \<longrightarrow> instance_ptr s' T' M' = instance_ptr s T' M'"
    by (auto simp: i)
  have f3: "\<forall>T'. T' \<noteq> T \<longrightarrow> created s' T' = created s T'" by (simp add: c)
  have later: "\<forall>(ctor' :: 't \<Rightarrow> 'b \<Rightarrow> 'y + 'o) M' (As' :: 'q) args obj.
       ctor' T args = Inr obj \<longrightarrow>
       (\<exists>p s''. create ctor' T M' As' args s' = Some (Inr p, s'')
          \<and> created s'' T \<and> instance_ptr s'' T M' = p \<and> deref (heap s'') p = Some obj)"
  proof (intro allI impI)
    fix ctor' :: "'t \<Rightarrow> 'b \<Rightarrow> 'y + 'o" and M' and As' :: 'q and args obj
    assume ok: "ctor' T args = Inr obj"
    from absent have a: "\<not> created s' T" by simp
    from free [of T] l have u: "\<not> lockable s' T" by simp
    show "\<exists>p s''. create ctor' T M' As' args s' = Some (Inr p, s'')
          \<and> created s'' T \<and> instance_ptr s'' T M' = p \<and> deref (heap s'') p = Some obj"
      by (simp add: create_absent [where ctor = ctor', OF a u ok] deref_Cons)
  qed
  from run gone null absent empty rest f1 f2 f3 l later show ?thesis
    by (intro exI [of _ s'] conjI)
qed

theorem destroy_deallocates_and_resets_witness:
  "run test_ctor [Create Horizon_class multi_threaded ([] :: arg_type list) no_args] start
     = Some (test_alive multi_threaded [] no_args,
             (\<lambda>T. None)(Horizon_class := Some multi_threaded))
   \<and> created (test_alive multi_threaded [] no_args) Horizon_class = True
   \<and> instance_ptr (test_alive multi_threaded [] no_args) Horizon_class multi_threaded \<noteq> NULL
   \<and> (\<exists>s'. destroy Horizon_class multi_threaded ([] :: arg_type list)
               (test_alive multi_threaded [] no_args) = Some (Inr (), s')
          \<and> deref (heap s') (Suc NULL) = None
          \<and> instance_ptr s' Horizon_class multi_threaded = NULL
          \<and> instance_ptr s' Horizon_class single_threaded = NULL
          \<and> created s' Horizon_class = False
          \<and> (\<forall>q. deref (heap s') q = None))"
proof -
  let ?s = "test_alive multi_threaded [] no_args"
  let ?g = "(\<lambda>T. None)(Horizon_class := Some multi_threaded)"
  have c: "test_ctor Horizon_class no_args
      = Inr \<lparr>mInt = 0, mEvent = (), mEventPtr = own_mEvent, mEventRef = own_mEvent\<rparr>"
    by (simp add: test_ctor_def)
  note st = test_state [OF c, of multi_threaded "[]"]
  have h1: "run test_ctor [Create Horizon_class multi_threaded ([] :: arg_type list) no_args]
      start = Some (?s, ?g)"
    by (simp add: start_def create_test_alive [OF c] succeeded_def)
  have h2: "created ?s Horizon_class = True" by (simp add: st)
  have h3: "instance_ptr ?s Horizon_class multi_threaded \<noteq> NULL" by (simp add: st NULL_def)
  have p: "instance_ptr ?s Horizon_class multi_threaded = Suc NULL" by (simp add: st)
  from destroy_deallocates_and_resets [where ctor = test_ctor, OF h1 h2 h3,
      where As = "[] :: arg_type list"]
  obtain s' where d: "destroy Horizon_class multi_threaded ([] :: arg_type list) ?s
        = Some (Inr (), s')"
    and gone: "deref (heap s') (instance_ptr ?s Horizon_class multi_threaded) = None"
    and null: "instance_ptr s' Horizon_class multi_threaded = NULL"
    and absent: "created s' Horizon_class = False"
    and empty: "\<forall>M'. instance_ptr s' Horizon_class M' = NULL"
    and rest: "\<forall>q. deref (heap s') q \<noteq> None \<longrightarrow>
        (\<exists>T' M'. T' \<noteq> Horizon_class \<and> created s' T' \<and> instance_ptr s' T' M' = q)"
    by (elim exE conjE) (rule that, assumption+)
  from gone have gone': "deref (heap s') (Suc NULL) = None" by (simp only: p)
  from empty have single: "instance_ptr s' Horizon_class single_threaded = NULL" by (elim allE)
  have none: "\<forall>q. deref (heap s') q = None"
  proof
    fix q
    show "deref (heap s') q = None"
    proof (rule ccontr)
      assume "deref (heap s') q \<noteq> None"
      with rest obtain T' :: managed where "T' \<noteq> Horizon_class" by blast
      then show False by (cases T') simp
    qed
  qed
  from d gone' null single absent none
  have "\<exists>s'. destroy Horizon_class multi_threaded ([] :: arg_type list) ?s = Some (Inr (), s')
          \<and> deref (heap s') (Suc NULL) = None
          \<and> instance_ptr s' Horizon_class multi_threaded = NULL
          \<and> instance_ptr s' Horizon_class single_threaded = NULL
          \<and> created s' Horizon_class = False
          \<and> (\<forall>q. deref (heap s') q = None)"
    by (intro exI [of _ s'] conjI)
  with h1 h2 h3 show ?thesis by (intro conjI)
qed

text \<open>
  C3. For every managed type \<open>T\<close>, and whatever the policy, the template arguments and
  the argument pack of the call: \<^verbatim>\<open>create\<close> called while \<^verbatim>\<open>created\<close> is true for \<open>T\<close> throws
  \<^verbatim>\<open>singularity_already_created\<close>, and the state after the call is the state before it:
  the flag is still true, no slot has changed, and the free store, with the instance
  created earlier in it, is untouched.
\<close>

theorem create_while_alive_fails:
  assumes "created s T = True" and "\<not> lockable s T"
  shows "create ctor T M As args s = Some (Inl (singularity singularity_already_created), s)"
  using assms by (simp add: create_alive)

theorem create_while_alive_fails_witness:
  "created (test_alive single_threaded [] no_args) Horizon_class = True
   \<and> \<not> lockable (test_alive single_threaded [] no_args) Horizon_class
   \<and> create test_ctor Horizon_class single_threaded [type_int] (by_value 5)
         (test_alive single_threaded [] no_args)
       = Some (Inl (singularity singularity_already_created),
               test_alive single_threaded [] no_args)
   \<and> deref (heap (test_alive single_threaded [] no_args)) (Suc NULL)
       = Some \<lparr>mInt = 0, mEvent = (), mEventPtr = own_mEvent, mEventRef = own_mEvent\<rparr>"
proof -
  let ?s = "test_alive single_threaded [] no_args"
  have st: "?s = \<lparr>created = (\<lambda>T. True),
      instance_ptr = (\<lambda>T M'. if M' = single_threaded then Suc NULL else NULL),
      lockable = (\<lambda>T. False),
      heap = [(Suc NULL, \<lparr>mInt = 0, mEvent = (), mEventPtr = own_mEvent,
                              mEventRef = own_mEvent\<rparr>)]\<rparr>"
    by (rule test_alive_state) (simp add: test_ctor_def)
  have h1: "created ?s Horizon_class = True" by (simp add: st)
  have h2: "\<not> lockable ?s Horizon_class" by (simp add: st)
  have obj: "deref (heap ?s) (Suc NULL)
       = Some \<lparr>mInt = 0, mEvent = (), mEventPtr = own_mEvent, mEventRef = own_mEvent\<rparr>"
    by (simp add: st deref_def)
  from create_while_alive_fails [OF h1 h2, where ctor = test_ctor and M = single_threaded
      and As = "[type_int]" and args = "by_value 5"]
  show ?thesis using h1 h2 obj by (intro conjI)
qed

text \<open>
  C4. For every managed type \<open>T\<close> and policy \<open>M\<close>: \<^verbatim>\<open>destroy\<close> called while \<^verbatim>\<open>created\<close> is
  false for \<open>T\<close> throws \<^verbatim>\<open>singularity_already_destroyed\<close> and leaves the state as it was.
  This is so in the initial state, where no \<^verbatim>\<open>create\<close> ever happened, and in the state a
  \<^verbatim>\<open>destroy\<close> that returned normally leaves behind, whatever the instantiation of the
  second \<^verbatim>\<open>destroy\<close>.
\<close>

theorem destroy_while_absent_fails:
  "(created s T = False \<and> \<not> lockable s T \<longrightarrow>
      destroy T M As s = Some (Inl singularity_already_destroyed, s))
   \<and> destroy T M As initial = Some (Inl singularity_already_destroyed, initial)
   \<and> (\<not> lockable s T \<and> destroy T M As s = Some (Inr (), s') \<longrightarrow>
      destroy T M' As' s' = Some (Inl singularity_already_destroyed, s'))"
proof (intro conjI impI)
  assume "created s T = False \<and> \<not> lockable s T"
  then show "destroy T M As s = Some (Inl singularity_already_destroyed, s)"
    by (simp add: destroy_absent)
next
  show "destroy T M As initial = Some (Inl singularity_already_destroyed, initial)"
    by (rule destroy_absent) (simp_all add: initial_def)
next
  assume a: "\<not> lockable s T \<and> destroy T M As s = Some (Inr (), s')"
  then have u: "\<not> lockable s T" and d: "destroy T M As s = Some (Inr (), s')" by simp_all
  from destroy_returned [OF d u] have alive: "created s T" and slot: "instance_ptr s T M \<noteq> NULL"
    by simp_all
  from destroy_alive [OF alive slot u, of As] d
  have "\<not> created s' T" and "\<not> lockable s' T" using u by auto
  then show "destroy T M' As' s' = Some (Inl singularity_already_destroyed, s')"
    by (rule destroy_absent)
qed

theorem destroy_while_absent_fails_witness:
  "destroy Horizon_class single_threaded ([] :: arg_type list)
       (initial :: (managed, Horizon) process)
     = Some (Inl singularity_already_destroyed, initial)
   \<and> (\<exists>s'. destroy Horizon_class single_threaded ([] :: arg_type list)
                (test_alive single_threaded [] no_args) = Some (Inr (), s')
          \<and> destroy Horizon_class single_threaded [type_int] s'
              = Some (Inl singularity_already_destroyed, s'))"
proof -
  let ?s = "test_alive single_threaded [] no_args"
  have st: "?s = \<lparr>created = (\<lambda>T. True),
      instance_ptr = (\<lambda>T M'. if M' = single_threaded then Suc NULL else NULL),
      lockable = (\<lambda>T. False),
      heap = [(Suc NULL, \<lparr>mInt = 0, mEvent = (), mEventPtr = own_mEvent,
                              mEventRef = own_mEvent\<rparr>)]\<rparr>"
    by (rule test_alive_state) (simp add: test_ctor_def)
  have alive: "created ?s Horizon_class" by (simp add: st)
  have slot: "instance_ptr ?s Horizon_class single_threaded \<noteq> NULL" by (simp add: st NULL_def)
  have u: "\<not> lockable ?s Horizon_class" by (simp add: st)
  obtain s' where d: "destroy Horizon_class single_threaded ([] :: arg_type list) ?s
      = Some (Inr (), s')"
    using destroy_alive [OF alive slot u, where As = "[] :: arg_type list"] by blast
  note claim = destroy_while_absent_fails [where s = ?s and T = Horizon_class
      and M = single_threaded and As = "[] :: arg_type list" and s' = s'
      and M' = single_threaded and As' = "[type_int]"]
  from claim have first: "destroy Horizon_class single_threaded ([] :: arg_type list)
       (initial :: (managed, Horizon) process)
     = Some (Inl singularity_already_destroyed, initial)"
    by (elim conjE)
  from claim u d have "destroy Horizon_class single_threaded [type_int] s'
      = Some (Inl singularity_already_destroyed, s')"
    by (elim conjE) simp
  with d first show ?thesis by (intro conjI exI [of _ s'])
qed

text \<open>
  C5. For every managed type \<open>T\<close> and two distinct policies \<open>A\<close> and \<open>B\<close>, in any state a
  sequence of calls leads to in which \<^verbatim>\<open>created\<close> is false for \<open>T\<close>: \<^verbatim>\<open>create\<close> under \<open>A\<close>
  returns an instance at \<open>p\<close>; \<^verbatim>\<open>destroy\<close> under \<open>B\<close> then throws
  \<^verbatim>\<open>singularity_destroy_on_incorrect_threading\<close> and leaves the state as it was, so the
  flag is still true, the slot of \<open>(T, A)\<close> still holds \<open>p\<close> and the instance is still in the
  free store; and \<^verbatim>\<open>destroy\<close> under \<open>A\<close> then returns normally and releases the instance.
\<close>

theorem destroy_with_other_policy_fails:
  fixes ctor :: "'t \<Rightarrow> 'a \<Rightarrow> 'x + 'o" and cs :: "('t, 'r, 'a) call list"
  assumes "run ctor cs start = Some (s, g)" and "created s T = False"
    and "ctor T args = Inr obj" and "A \<noteq> B"
  shows "\<exists>p s1. create ctor T A As args s = Some (Inr p, s1)
           \<and> destroy T B As' s1 = Some (Inl singularity_destroy_on_incorrect_threading, s1)
           \<and> created s1 T \<and> instance_ptr s1 T A = p \<and> p \<noteq> NULL
           \<and> deref (heap s1) p = Some obj
           \<and> (\<exists>s2. destroy T A As'' s1 = Some (Inr (), s2)
                 \<and> deref (heap s2) p = None \<and> \<not> created s2 T)"
proof -
  let ?p = "operator_new (heap s)"
  from reachable_consistent [OF assms(1)]
  have slot: "\<And>T M. (instance_ptr s T M \<noteq> NULL) = (g T = Some M)"
    and flag: "\<And>T. created s T = (g T \<noteq> None)"
    and free: "\<And>T. \<not> lockable s T"
    by (simp_all add: consistent_def)
  from assms(2) have absent: "\<not> created s T" by simp
  with flag have "g T = None" by simp
  with slot [of T B] have emptyB: "instance_ptr s T B = NULL" by simp
  define s1 where "s1 = s\<lparr>heap := (?p, obj) # heap s,
      instance_ptr := (instance_ptr s)(T := (instance_ptr s T)(A := ?p)),
      created := (created s)(T := True)\<rparr>"
  have c: "create ctor T A As args s = Some (Inr ?p, s1)"
    unfolding s1_def by (rule create_absent [where ctor = ctor, OF absent free assms(3)])
  have fresh: "?p \<noteq> NULL" by (rule operator_new_not_NULL)
  have alive1: "created s1 T" and slotA: "instance_ptr s1 T A = ?p"
    and free1: "\<not> lockable s1 T"
    by (simp_all add: s1_def free)
  have slotB: "instance_ptr s1 T B = NULL" using assms(4) emptyB by (simp add: s1_def)
  have obj: "deref (heap s1) ?p = Some obj" by (simp add: s1_def deref_Cons)
  have wrong: "destroy T B As' s1 = Some (Inl singularity_destroy_on_incorrect_threading, s1)"
    by (rule destroy_other_policy [OF alive1 slotB free1])
  from slotA fresh have liveA: "instance_ptr s1 T A \<noteq> NULL" by simp
  define s2 where "s2 = s1\<lparr>heap := operator_delete (instance_ptr s1 T A) (heap s1),
      instance_ptr := (instance_ptr s1)(T := (instance_ptr s1 T)(A := NULL)),
      created := (created s1)(T := False)\<rparr>"
  have d: "destroy T A As'' s1 = Some (Inr (), s2)"
    unfolding s2_def by (rule destroy_alive [OF alive1 liveA free1])
  have gone: "deref (heap s2) ?p = None" and absent2: "\<not> created s2 T"
    by (simp_all add: s2_def slotA deref_operator_delete)
  from d gone absent2 have "\<exists>s2. destroy T A As'' s1 = Some (Inr (), s2)
                 \<and> deref (heap s2) ?p = None \<and> \<not> created s2 T"
    by (intro exI [of _ s2] conjI)
  with c wrong alive1 slotA fresh obj show ?thesis
    by blast
qed

theorem destroy_with_other_policy_fails_witness:
  "run test_ctor ([] :: (managed, arg_type list, Horizon_args) call list) start
     = Some (initial, (\<lambda>T. None))
   \<and> created (initial :: (managed, Horizon) process) Horizon_class = False
   \<and> test_ctor Horizon_class no_args
       = Inr \<lparr>mInt = 0, mEvent = (), mEventPtr = own_mEvent, mEventRef = own_mEvent\<rparr>
   \<and> single_threaded \<noteq> multi_threaded
   \<and> (\<exists>p s1. create test_ctor Horizon_class single_threaded ([] :: arg_type list) no_args initial
                = Some (Inr p, s1)
          \<and> destroy Horizon_class multi_threaded ([] :: arg_type list) s1
              = Some (Inl singularity_destroy_on_incorrect_threading, s1)
          \<and> deref (heap s1) p
              = Some \<lparr>mInt = 0, mEvent = (), mEventPtr = own_mEvent, mEventRef = own_mEvent\<rparr>
          \<and> (\<exists>s2. destroy Horizon_class single_threaded ([] :: arg_type list) s1
                    = Some (Inr (), s2)
                 \<and> deref (heap s2) p = None))"
proof -
  have h1: "run test_ctor ([] :: (managed, arg_type list, Horizon_args) call list) start
     = Some (initial, (\<lambda>T. None))"
    by (simp add: start_def)
  have h2: "created (initial :: (managed, Horizon) process) Horizon_class = False"
    by (simp add: initial_def)
  have h3: "test_ctor Horizon_class no_args
       = Inr \<lparr>mInt = 0, mEvent = (), mEventPtr = own_mEvent, mEventRef = own_mEvent\<rparr>"
    by (simp add: test_ctor_def)
  have h4: "single_threaded \<noteq> multi_threaded" by simp
  from destroy_with_other_policy_fails [where ctor = test_ctor, OF h1 h2 h3 h4,
      where As = "[] :: arg_type list" and As' = "[] :: arg_type list"
        and As'' = "[] :: arg_type list"]
  have "\<exists>p s1. create test_ctor Horizon_class single_threaded ([] :: arg_type list) no_args initial
                = Some (Inr p, s1)
          \<and> destroy Horizon_class multi_threaded ([] :: arg_type list) s1
              = Some (Inl singularity_destroy_on_incorrect_threading, s1)
          \<and> deref (heap s1) p
              = Some \<lparr>mInt = 0, mEvent = (), mEventPtr = own_mEvent, mEventRef = own_mEvent\<rparr>
          \<and> (\<exists>s2. destroy Horizon_class single_threaded ([] :: arg_type list) s1
                    = Some (Inr (), s2)
                 \<and> deref (heap s2) p = None)"
    by blast
  with h1 h2 h3 h4 show ?thesis by (intro conjI)
qed

text \<open>
  C6. For every sequence of \<^verbatim>\<open>create\<close> and \<^verbatim>\<open>destroy\<close> calls, with any managed types,
  policies, template arguments and argument packs, run from the initial state: every call
  returns, and in the state \<open>s\<close> reached, for every managed type \<open>T\<close>,
  \<^item> (I2) if \<^verbatim>\<open>created\<close> is true for \<open>T\<close>, the history names the policy \<open>M\<close> of the \<^verbatim>\<open>create\<close>
    that made it true, the slot of \<open>(T, M)\<close> is not \<open>NULL\<close> and every other slot of \<open>T\<close> is
    \<open>NULL\<close>; if it is false, every slot of \<open>T\<close> is \<open>NULL\<close>;
  \<^item> (I1) any further \<^verbatim>\<open>create\<close> for \<open>T\<close> returns or throws; when it returns the flag of \<open>T\<close>
    was false and is now true, when it throws the state is unchanged, and the flag of no
    other type changes; likewise any further \<^verbatim>\<open>destroy\<close> for \<open>T\<close>, with true and false
    exchanged. So the flag goes from false to true only inside a \<^verbatim>\<open>create\<close> that returns,
    and from true to false only inside a \<^verbatim>\<open>destroy\<close> that returns.
\<close>

theorem lifecycle_invariants:
  fixes ctor :: "'t \<Rightarrow> 'a \<Rightarrow> 'x + 'o" and cs :: "('t, 'r, 'a) call list"
  shows "\<exists>s g. run ctor cs start = Some (s, g)
     \<and> (\<forall>T. created s T \<longrightarrow>
           (\<exists>M. g T = Some M \<and> instance_ptr s T M \<noteq> NULL
              \<and> (\<forall>M'. M' \<noteq> M \<longrightarrow> instance_ptr s T M' = NULL)))
     \<and> (\<forall>T. \<not> created s T \<longrightarrow> g T = None \<and> (\<forall>M. instance_ptr s T M = NULL))
     \<and> (\<forall>T M (As :: 'r) args. \<exists>r s'.
           create ctor T M As args s = Some (r, s')
           \<and> (succeeded r \<longrightarrow> \<not> created s T \<and> created s' T)
           \<and> (\<not> succeeded r \<longrightarrow> s' = s)
           \<and> (\<forall>T'. T' \<noteq> T \<longrightarrow> created s' T' = created s T'))
     \<and> (\<forall>T M (As :: 'r). \<exists>r s'.
           destroy T M As s = Some (r, s')
           \<and> (succeeded r \<longrightarrow> created s T \<and> \<not> created s' T)
           \<and> (\<not> succeeded r \<longrightarrow> s' = s)
           \<and> (\<forall>T'. T' \<noteq> T \<longrightarrow> created s' T' = created s T'))"
proof -
  from run_consistent [OF consistent_start, of ctor cs]
  obtain s g where run: "run ctor cs start = Some (s, g)" and inv: "consistent (s, g)"
    by (metis surj_pair)
  from inv have flag: "\<And>T. created s T = (g T \<noteq> None)"
    and slot: "\<And>T M. (instance_ptr s T M \<noteq> NULL) = (g T = Some M)"
    and free: "\<And>T. \<not> lockable s T"
    by (simp_all add: consistent_def)
  have alive: "\<forall>T. created s T \<longrightarrow>
           (\<exists>M. g T = Some M \<and> instance_ptr s T M \<noteq> NULL
              \<and> (\<forall>M'. M' \<noteq> M \<longrightarrow> instance_ptr s T M' = NULL))"
  proof (intro allI impI)
    fix T assume "created s T"
    with flag obtain M where owner: "g T = Some M" by auto
    have "instance_ptr s T M \<noteq> NULL" using slot [of T M] owner by simp
    moreover have "\<forall>M'. M' \<noteq> M \<longrightarrow> instance_ptr s T M' = NULL"
    proof (intro allI impI)
      fix M' assume "M' \<noteq> M"
      then show "instance_ptr s T M' = NULL" using slot [of T M'] owner by simp
    qed
    ultimately show "\<exists>M. g T = Some M \<and> instance_ptr s T M \<noteq> NULL
              \<and> (\<forall>M'. M' \<noteq> M \<longrightarrow> instance_ptr s T M' = NULL)"
      using owner by blast
  qed
  have absent: "\<forall>T. \<not> created s T \<longrightarrow> g T = None \<and> (\<forall>M. instance_ptr s T M = NULL)"
  proof (intro allI impI conjI)
    fix T assume "\<not> created s T"
    with flag show none: "g T = None" by simp
    fix M show "instance_ptr s T M = NULL" using slot [of T M] none by simp
  qed
  have creates: "\<forall>T M (As :: 'r) args. \<exists>r s'.
           create ctor T M As args s = Some (r, s')
           \<and> (succeeded r \<longrightarrow> \<not> created s T \<and> created s' T)
           \<and> (\<not> succeeded r \<longrightarrow> s' = s)
           \<and> (\<forall>T'. T' \<noteq> T \<longrightarrow> created s' T' = created s T')"
    by (intro allI create_flag free)
  have destroys: "\<forall>T M (As :: 'r). \<exists>r s'.
           destroy T M As s = Some (r, s')
           \<and> (succeeded r \<longrightarrow> created s T \<and> \<not> created s' T)
           \<and> (\<not> succeeded r \<longrightarrow> s' = s)
           \<and> (\<forall>T'. T' \<noteq> T \<longrightarrow> created s' T' = created s T')"
    by (intro allI destroy_flag free)
  from run alive absent creates destroys show ?thesis by (intro exI conjI)
qed

theorem lifecycle_invariants_witness:
  "run test_ctor
      [Create Horizon_class single_threaded [] no_args,
       Destroy Horizon_class multi_threaded ([] :: arg_type list)]
      start
     = Some (test_alive single_threaded [] no_args,
             (\<lambda>T. None)(Horizon_class := Some single_threaded))
   \<and> created (test_alive single_threaded [] no_args) Horizon_class
   \<and> instance_ptr (test_alive single_threaded [] no_args) Horizon_class single_threaded \<noteq> NULL
   \<and> instance_ptr (test_alive single_threaded [] no_args) Horizon_class multi_threaded = NULL"
proof -
  let ?s = "test_alive single_threaded [] no_args"
  let ?g = "(\<lambda>T. None)(Horizon_class := Some single_threaded)"
  let ?cs = "[Create Horizon_class single_threaded [] no_args,
              Destroy Horizon_class multi_threaded ([] :: arg_type list)]"
  have c: "test_ctor Horizon_class no_args
      = Inr \<lparr>mInt = 0, mEvent = (), mEventPtr = own_mEvent, mEventRef = own_mEvent\<rparr>"
    by (simp add: test_ctor_def)
  note st = test_state [OF c, of single_threaded "[]"]
  have alive: "created ?s Horizon_class" by (simp add: st)
  have "destroy Horizon_class multi_threaded ([] :: arg_type list) ?s
      = Some (Inl singularity_destroy_on_incorrect_threading, ?s)"
    by (rule destroy_other_policy) (simp_all add: st)
  then have run: "run test_ctor ?cs start = Some (?s, ?g)"
    by (simp add: start_def create_test_alive [OF c] succeeded_def)
  from lifecycle_invariants [of test_ctor ?cs] run
  have "\<exists>M. ?g Horizon_class = Some M \<and> instance_ptr ?s Horizon_class M \<noteq> NULL
      \<and> (\<forall>M'. M' \<noteq> M \<longrightarrow> instance_ptr ?s Horizon_class M' = NULL)"
    using alive by auto
  then have "instance_ptr ?s Horizon_class single_threaded \<noteq> NULL"
    and "instance_ptr ?s Horizon_class multi_threaded = NULL"
    by auto
  with run alive show ?thesis by (intro conjI)
qed

text \<open>
  C7. For every managed type \<open>T\<close>, policy \<open>M\<close> and argument pack the constructor completes
  on, starting from a state in which \<^verbatim>\<open>created\<close> is false for \<open>T\<close>: \<^verbatim>\<open>create(args)\<close>,
  \<^verbatim>\<open>destroy()\<close> and \<^verbatim>\<open>create(args)\<close> again all return normally. The first instance is
  gone from the free store after \<^verbatim>\<open>destroy\<close>, and the second \<^verbatim>\<open>create\<close> puts the object the
  constructor builds from \<open>args\<close> at an address that was not live, whatever the holder of
  the first reference had written into the first instance in between.
\<close>

theorem create_destroy_create:
  assumes "created s T = False" and "\<not> lockable s T" and "ctor T args = Inr obj"
  shows "\<exists>p1 s1. create ctor T M As args s = Some (Inr p1, s1)
           \<and> deref (heap s1) p1 = Some obj
           \<and> (\<forall>s1'. s1' = s1 \<or> (\<exists>v. s1' = write_through p1 v s1) \<longrightarrow>
                (\<exists>s2. destroy T M As s1' = Some (Inr (), s2)
                   \<and> deref (heap s2) p1 = None
                   \<and> (\<exists>p2 s3. create ctor T M As args s2 = Some (Inr p2, s3)
                        \<and> deref (heap s2) p2 = None
                        \<and> deref (heap s3) p2 = Some obj
                        \<and> instance_ptr s3 T M = p2 \<and> created s3 T)))"
proof -
  let ?p1 = "operator_new (heap s)"
  from assms(1) have absent: "\<not> created s T" by simp
  define s1 where "s1 = s\<lparr>heap := (?p1, obj) # heap s,
      instance_ptr := (instance_ptr s)(T := (instance_ptr s T)(M := ?p1)),
      created := (created s)(T := True)\<rparr>"
  have c1: "create ctor T M As args s = Some (Inr ?p1, s1)"
    unfolding s1_def by (rule create_absent [where ctor = ctor, OF absent assms(2) assms(3)])
  have obj1: "deref (heap s1) ?p1 = Some obj" by (simp add: s1_def deref_Cons)
  have fresh: "?p1 \<noteq> NULL" by (rule operator_new_not_NULL)
  have rest: "\<exists>s2. destroy T M As s1' = Some (Inr (), s2)
                   \<and> deref (heap s2) ?p1 = None
                   \<and> (\<exists>p2 s3. create ctor T M As args s2 = Some (Inr p2, s3)
                        \<and> deref (heap s2) p2 = None
                        \<and> deref (heap s3) p2 = Some obj
                        \<and> instance_ptr s3 T M = p2 \<and> created s3 T)"
    if "s1' = s1 \<or> (\<exists>v. s1' = write_through ?p1 v s1)" for s1'
  proof -
    from that have alive: "created s1' T" and slot: "instance_ptr s1' T M = ?p1"
      and free: "\<not> lockable s1' T"
      using assms(2) by (auto simp: s1_def write_through_def)
    from slot fresh have live: "instance_ptr s1' T M \<noteq> NULL" by simp
    define s2 where "s2 = s1'\<lparr>heap := operator_delete (instance_ptr s1' T M) (heap s1'),
        instance_ptr := (instance_ptr s1')(T := (instance_ptr s1' T)(M := NULL)),
        created := (created s1')(T := False)\<rparr>"
    have d: "destroy T M As s1' = Some (Inr (), s2)"
      unfolding s2_def by (rule destroy_alive [OF alive live free])
    have gone: "deref (heap s2) ?p1 = None"
      by (simp add: s2_def slot deref_operator_delete)
    have absent2: "\<not> created s2 T" and free2: "\<not> lockable s2 T"
      using free by (simp_all add: s2_def)
    let ?p2 = "operator_new (heap s2)"
    define s3 where "s3 = s2\<lparr>heap := (?p2, obj) # heap s2,
        instance_ptr := (instance_ptr s2)(T := (instance_ptr s2 T)(M := ?p2)),
        created := (created s2)(T := True)\<rparr>"
    have c2: "create ctor T M As args s2 = Some (Inr ?p2, s3)"
      unfolding s3_def by (rule create_absent [where ctor = ctor, OF absent2 free2 assms(3)])
    have "deref (heap s2) ?p2 = None" by (rule operator_new_fresh)
    moreover have "deref (heap s3) ?p2 = Some obj" by (simp add: s3_def deref_Cons)
    moreover have "instance_ptr s3 T M = ?p2" and "created s3 T" by (simp_all add: s3_def)
    ultimately show ?thesis using d gone c2 by blast
  qed
  from c1 obj1 rest show ?thesis by blast
qed

theorem create_destroy_create_witness:
  "created (initial :: (managed, Horizon) process) Horizon_class = False
   \<and> \<not> lockable (initial :: (managed, Horizon) process) Horizon_class
   \<and> test_ctor Horizon_class (by_value 3)
       = Inr \<lparr>mInt = 3, mEvent = (), mEventPtr = own_mEvent, mEventRef = own_mEvent\<rparr>
   \<and> (\<exists>p1 s1. create test_ctor Horizon_class multi_threaded [type_int] (by_value 3) initial
                  = Some (Inr p1, s1)
          \<and> (\<exists>s2. destroy Horizon_class multi_threaded [type_int]
                      (write_through p1 \<lparr>mInt = 99, mEvent = (), mEventPtr = external 7,
                                          mEventRef = own_mEvent\<rparr> s1)
                    = Some (Inr (), s2)
                 \<and> deref (heap s2) p1 = None
                 \<and> (\<exists>p2 s3. create test_ctor Horizon_class multi_threaded [type_int]
                                (by_value 3) s2 = Some (Inr p2, s3)
                        \<and> deref (heap s3) p2
                            = Some \<lparr>mInt = 3, mEvent = (), mEventPtr = own_mEvent,
                                    mEventRef = own_mEvent\<rparr>)))"
proof -
  have h1: "created (initial :: (managed, Horizon) process) Horizon_class = False"
    by (simp add: initial_def)
  have h2: "\<not> lockable (initial :: (managed, Horizon) process) Horizon_class"
    by (simp add: initial_def)
  have h3: "test_ctor Horizon_class (by_value 3)
       = Inr \<lparr>mInt = 3, mEvent = (), mEventPtr = own_mEvent, mEventRef = own_mEvent\<rparr>"
    by (simp add: test_ctor_def)
  let ?v = "\<lparr>mInt = 99, mEvent = (), mEventPtr = external 7, mEventRef = own_mEvent\<rparr>"
  from create_destroy_create [where ctor = test_ctor and M = multi_threaded
      and As = "[type_int]", OF h1 h2 h3]
  obtain p1 s1 where c1: "create test_ctor Horizon_class multi_threaded [type_int] (by_value 3)
        initial = Some (Inr p1, s1)"
    and later: "\<forall>s1'. s1' = s1 \<or> (\<exists>v. s1' = write_through p1 v s1) \<longrightarrow>
        (\<exists>s2. destroy Horizon_class multi_threaded [type_int] s1' = Some (Inr (), s2)
           \<and> deref (heap s2) p1 = None
           \<and> (\<exists>p2 s3. create test_ctor Horizon_class multi_threaded [type_int] (by_value 3) s2
                    = Some (Inr p2, s3)
                \<and> deref (heap s2) p2 = None
                \<and> deref (heap s3) p2
                    = Some \<lparr>mInt = 3, mEvent = (), mEventPtr = own_mEvent,
                            mEventRef = own_mEvent\<rparr>
                \<and> instance_ptr s3 Horizon_class multi_threaded = p2
                \<and> created s3 Horizon_class))"
    by (elim exE conjE) (rule that, assumption+)
  have "write_through p1 ?v s1 = s1 \<or> (\<exists>v. write_through p1 ?v s1 = write_through p1 v s1)"
    by (intro disjI2 exI [of _ ?v] refl)
  with later obtain s2 p2 s3
    where "destroy Horizon_class multi_threaded [type_int] (write_through p1 ?v s1)
        = Some (Inr (), s2)"
      and "deref (heap s2) p1 = None"
      and "create test_ctor Horizon_class multi_threaded [type_int] (by_value 3) s2
        = Some (Inr p2, s3)"
      and "deref (heap s3) p2
        = Some \<lparr>mInt = 3, mEvent = (), mEventPtr = own_mEvent, mEventRef = own_mEvent\<rparr>"
    by (elim allE [of _ "write_through p1 ?v s1"] impE exE conjE) (assumption, rule that, assumption+)
  with c1
  have "\<exists>p1 s1. create test_ctor Horizon_class multi_threaded [type_int] (by_value 3) initial
                  = Some (Inr p1, s1)
          \<and> (\<exists>s2. destroy Horizon_class multi_threaded [type_int]
                      (write_through p1 \<lparr>mInt = 99, mEvent = (), mEventPtr = external 7,
                                          mEventRef = own_mEvent\<rparr> s1)
                    = Some (Inr (), s2)
                 \<and> deref (heap s2) p1 = None
                 \<and> (\<exists>p2 s3. create test_ctor Horizon_class multi_threaded [type_int]
                                (by_value 3) s2 = Some (Inr p2, s3)
                        \<and> deref (heap s3) p2
                            = Some \<lparr>mInt = 3, mEvent = (), mEventPtr = own_mEvent,
                                    mEventRef = own_mEvent\<rparr>))"
    by (intro exI [of _ p1] exI [of _ s1] exI [of _ s2] exI [of _ p2] exI [of _ s3] conjI)
  with h1 h2 h3 show ?thesis by (intro conjI)
qed

text \<open>
  C8. For every managed type \<open>T\<close> and policy \<open>M\<close>, starting from a state in which \<^verbatim>\<open>created\<close>
  is false for \<open>T\<close>: the result of \<^verbatim>\<open>create\<close> is the same for all template arguments
  \<open>A0 ... A7\<close>; while the instance is alive, \<^verbatim>\<open>create\<close> through any policy, any template
  arguments and any argument pack throws \<^verbatim>\<open>singularity_already_created\<close>; and
  \<^verbatim>\<open>destroy\<close> under \<open>M\<close> returns normally, with the same result, through any template
  arguments, whether or not they are those of the \<^verbatim>\<open>create\<close>.
\<close>

theorem statics_ignore_argument_types:
  fixes ctor :: "'t \<Rightarrow> 'a \<Rightarrow> 'x + 'o" and As :: 'q
  assumes "created s T = False" and "\<not> lockable s T" and "ctor T args = Inr obj"
  shows "\<exists>p s1. create ctor T M As args s = Some (Inr p, s1)
           \<and> (\<forall>As' :: 'r. create ctor T M As' args s = Some (Inr p, s1))
           \<and> (\<forall>M' (As' :: 'r) args'.
                 create ctor T M' As' args' s1
                   = Some (Inl (singularity singularity_already_created), s1))
           \<and> (\<exists>s2. (\<forall>Bs :: 'r. destroy T M Bs s1 = Some (Inr (), s2))
                 \<and> \<not> created s2 T \<and> instance_ptr s2 T M = NULL
                 \<and> deref (heap s2) p = None)"
proof -
  let ?p = "operator_new (heap s)"
  from assms(1) have absent: "\<not> created s T" by simp
  define s1 where "s1 = s\<lparr>heap := (?p, obj) # heap s,
      instance_ptr := (instance_ptr s)(T := (instance_ptr s T)(M := ?p)),
      created := (created s)(T := True)\<rparr>"
  have c: "create ctor T M Cs args s = Some (Inr ?p, s1)" for Cs :: 'z
    unfolding s1_def by (rule create_absent [where ctor = ctor, OF absent assms(2) assms(3)])
  have alive: "created s1 T" and slot: "instance_ptr s1 T M = ?p" and free: "\<not> lockable s1 T"
    using assms(2) by (simp_all add: s1_def)
  have again: "create ctor T M' As' args' s1
      = Some (Inl (singularity singularity_already_created), s1)" for M' and As' :: 'r and args'
    by (rule create_alive [OF alive free])
  from slot have live: "instance_ptr s1 T M \<noteq> NULL" by (simp add: operator_new_not_NULL)
  define s2 where "s2 = s1\<lparr>heap := operator_delete (instance_ptr s1 T M) (heap s1),
      instance_ptr := (instance_ptr s1)(T := (instance_ptr s1 T)(M := NULL)),
      created := (created s1)(T := False)\<rparr>"
  have d: "destroy T M Bs s1 = Some (Inr (), s2)" for Bs :: 'r
    unfolding s2_def by (rule destroy_alive [OF alive live free])
  have "\<not> created s2 T" and "instance_ptr s2 T M = NULL" and "deref (heap s2) ?p = None"
    by (simp_all add: s2_def slot deref_operator_delete)
  with d have "\<exists>s2. (\<forall>Bs :: 'r. destroy T M Bs s1 = Some (Inr (), s2))
                 \<and> \<not> created s2 T \<and> instance_ptr s2 T M = NULL
                 \<and> deref (heap s2) ?p = None"
    by blast
  with c [of As] c again show ?thesis by blast
qed

theorem statics_ignore_argument_types_witness:
  "created (initial :: (managed, Horizon) process) Horizon_class = False
   \<and> \<not> lockable (initial :: (managed, Horizon) process) Horizon_class
   \<and> test_ctor Horizon_class no_args
       = Inr \<lparr>mInt = 0, mEvent = (), mEventPtr = own_mEvent, mEventRef = own_mEvent\<rparr>
   \<and> (\<exists>p s1. create test_ctor Horizon_class single_threaded ([] :: arg_type list) no_args
                 initial = Some (Inr p, s1)
          \<and> create test_ctor Horizon_class multi_threaded [type_int] (by_value 5) s1
              = Some (Inl (singularity singularity_already_created), s1)
          \<and> (\<exists>s2. destroy Horizon_class single_threaded [type_int] s1 = Some (Inr (), s2)
                 \<and> \<not> created s2 Horizon_class))"
proof -
  have h1: "created (initial :: (managed, Horizon) process) Horizon_class = False"
    by (simp add: initial_def)
  have h2: "\<not> lockable (initial :: (managed, Horizon) process) Horizon_class"
    by (simp add: initial_def)
  have h3: "test_ctor Horizon_class no_args
       = Inr \<lparr>mInt = 0, mEvent = (), mEventPtr = own_mEvent, mEventRef = own_mEvent\<rparr>"
    by (simp add: test_ctor_def)
  from statics_ignore_argument_types [where ctor = test_ctor and M = single_threaded
      and ?'r = "arg_type list" and As = "[] :: arg_type list", OF h1 h2 h3]
  obtain p s1 s2 where "create test_ctor Horizon_class single_threaded ([] :: arg_type list)
        no_args initial = Some (Inr p, s1)"
    and again: "\<forall>M' (As' :: arg_type list) args'.
        create test_ctor Horizon_class M' As' args' s1
          = Some (Inl (singularity singularity_already_created), s1)"
    and undo: "\<forall>Bs :: arg_type list.
        destroy Horizon_class single_threaded Bs s1 = Some (Inr (), s2)"
    and "\<not> created s2 Horizon_class"
    by (elim exE conjE) (rule that, assumption+)
  moreover from again
  have "create test_ctor Horizon_class multi_threaded [type_int] (by_value 5) s1
      = Some (Inl (singularity singularity_already_created), s1)"
    by (elim allE)
  moreover from undo
  have "destroy Horizon_class single_threaded [type_int] s1 = Some (Inr (), s2)"
    by (elim allE)
  ultimately
  have "\<exists>p s1. create test_ctor Horizon_class single_threaded ([] :: arg_type list) no_args
                 initial = Some (Inr p, s1)
          \<and> create test_ctor Horizon_class multi_threaded [type_int] (by_value 5) s1
              = Some (Inl (singularity singularity_already_created), s1)
          \<and> (\<exists>s2. destroy Horizon_class single_threaded [type_int] s1 = Some (Inr (), s2)
                 \<and> \<not> created s2 Horizon_class)"
    by (intro exI [of _ p] exI [of _ s1] exI [of _ s2] conjI)
  with h1 h2 h3 show ?thesis by (intro conjI)
qed

text \<open>
  C10. For every managed type \<open>T\<close>, policy \<open>M\<close> and argument pack: if the constructor of
  \<open>T\<close> throws during \<^verbatim>\<open>create\<close>, the exception reaches the caller and the state after the
  call is the state before it: the flag is still false, the slot is not written and the
  storage is given back. A later \<^verbatim>\<open>create\<close> for \<open>T\<close>, with arguments the constructor
  completes on, returns normally.
\<close>

theorem create_ctor_failure_leaves_state:
  fixes s :: "('t, 'o) process" and ctor :: "'t \<Rightarrow> 'a \<Rightarrow> 'x + 'o"
  assumes "created s T = False" and "\<not> lockable s T" and "ctor T args = Inl x"
  shows "create ctor T M As args s = Some (Inl (from_new x), s)
         \<and> (\<forall>M' (As' :: 'r) args' obj. ctor T args' = Inr obj \<longrightarrow>
              (\<exists>p s'. create ctor T M' As' args' s = Some (Inr p, s')
                 \<and> created s' T \<and> instance_ptr s' T M' = p \<and> deref (heap s') p = Some obj))"
proof (intro conjI allI impI)
  from assms(1) have a: "\<not> created s T" by simp
  show "create ctor T M As args s = Some (Inl (from_new x), s)"
    by (rule create_ctor_throws [where ctor = ctor, OF a assms(2) assms(3)])
  fix M' and As' :: 'r and args' obj
  assume ok: "ctor T args' = Inr obj"
  show "\<exists>p s'. create ctor T M' As' args' s = Some (Inr p, s')
          \<and> created s' T \<and> instance_ptr s' T M' = p \<and> deref (heap s') p = Some obj"
    by (simp add: create_absent [where ctor = ctor, OF a assms(2) ok] deref_Cons)
qed

theorem create_ctor_failure_leaves_state_witness:
  "created (initial :: (managed, Horizon) process) Horizon_class = False
   \<and> \<not> lockable (initial :: (managed, Horizon) process) Horizon_class
   \<and> fragile_ctor Horizon_class no_args = Inl ''std::runtime_error''
   \<and> create fragile_ctor Horizon_class multi_threaded ([] :: arg_type list) no_args initial
       = Some (Inl (from_new ''std::runtime_error''), initial)
   \<and> (\<exists>p s'. create fragile_ctor Horizon_class multi_threaded [type_int] (by_value 3) initial
                = Some (Inr p, s')
          \<and> created s' Horizon_class
          \<and> instance_ptr s' Horizon_class multi_threaded = p
          \<and> deref (heap s') p
              = Some \<lparr>mInt = 3, mEvent = (), mEventPtr = own_mEvent, mEventRef = own_mEvent\<rparr>)"
proof -
  have h1: "created (initial :: (managed, Horizon) process) Horizon_class = False"
    by (simp add: initial_def)
  have h2: "\<not> lockable (initial :: (managed, Horizon) process) Horizon_class"
    by (simp add: initial_def)
  have h3: "fragile_ctor Horizon_class no_args = Inl ''std::runtime_error''"
    by (simp add: fragile_ctor_def)
  have ok: "fragile_ctor Horizon_class (by_value 3)
      = Inr \<lparr>mInt = 3, mEvent = (), mEventPtr = own_mEvent, mEventRef = own_mEvent\<rparr>"
    by (simp add: fragile_ctor_def)
  note claim = create_ctor_failure_leaves_state [where ctor = fragile_ctor
      and M = multi_threaded and As = "[] :: arg_type list", OF h1 h2 h3]
  from claim have fails: "create fragile_ctor Horizon_class multi_threaded
      ([] :: arg_type list) no_args initial
       = Some (Inl (from_new ''std::runtime_error''), initial)"
    by (elim conjE)
  from claim [THEN conjunct2, rule_format, OF ok, of multi_threaded "[type_int]"]
  have "\<exists>p s'. create fragile_ctor Horizon_class multi_threaded [type_int]
         (by_value 3) initial = Some (Inr p, s')
          \<and> created s' Horizon_class
          \<and> instance_ptr s' Horizon_class multi_threaded = p
          \<and> deref (heap s') p
              = Some \<lparr>mInt = 3, mEvent = (), mEventPtr = own_mEvent, mEventRef = own_mEvent\<rparr>"
    .
  with h1 h2 h3 fails show ?thesis by (intro conjI)
qed

end
